theory Spec2Isabelle
  imports Complex_Main "HOL-Library.AList" "HOL-Library.Sublist"
begin

section \<open>The persisted document and the runtime it comes from\<close>

text \<open>
  The cache file is read with \<^verbatim>\<open>JSON.parse\<close> and written with \<^verbatim>\<open>JSON.stringify\<close>. The
  model works on the parsed value. An object is the list of its own properties in the
  order \<^verbatim>\<open>Object.entries\<close> yields them. Numbers are JavaScript numbers restricted to the
  integers (counters start at 0 and are only incremented).
\<close>

datatype json =
    JNull
  | JBool bool
  | JNum int
  | JStr string
  | JArr "json list"
  | JObj "(string \<times> json) list"

text \<open>
  \<^verbatim>\<open>new Date(ms).toISOString()\<close> and \<^verbatim>\<open>new Date(s).getTime()\<close> belong to the runtime; the
  second is implementation-defined outside the ISO format and yields NaN (here \<open>None\<close>) for a
  string that is no date. Both are parameters of the model.
\<close>

record js_date =
  toISOString :: "int \<Rightarrow> string"
  getTime :: "string \<Rightarrow> int option"

text \<open>
  What \<^verbatim>\<open>fs\<close> holds at a path: no file, a file that cannot be read or parsed, or a JSON
  document. \<open>write_ok\<close> says whether \<^verbatim>\<open>fs.writeFileSync\<close> succeeds; when it does not, it
  throws.
\<close>

datatype file_content = NoFile | Corrupt | Document json

record filesystem =
  files :: "string \<Rightarrow> file_content"
  write_ok :: bool

section \<open>Models of the configuration and of the provider's reply\<close>

text \<open>\<^verbatim>\<open>models/locator-generation-response.ts\<close>. A property that is missing from the parsed
  reply is the empty string here: both are falsy for the check in \<^verbatim>\<open>callOpenAI\<close>.\<close>

record LocatorGenerationResponse =
  locator :: string
  strategy :: string
  confidence :: int
  reasoning :: "string option"

text \<open>The page driver, as far as the resolver uses it. \<open>first_attached p sel t\<close>: the wait
  \<^verbatim>\<open>page.locator(sel).first().waitFor({ state: "attached", timeout: t })\<close> resolves.
  \<open>attached p sel t\<close>: the same wait without \<^verbatim>\<open>first()\<close> resolves (that one rejects also when
  the selector matches several elements).\<close>

record page =
  first_attached :: "string \<Rightarrow> nat \<Rightarrow> bool"
  attached :: "string \<Rightarrow> nat \<Rightarrow> bool"

text \<open>\<^verbatim>\<open>models/self-healing-options\<close>, from its uses: both properties are optional.\<close>

record SelfHealingOptions =
  timeout :: "nat option"
  elementDescription :: "string option"

text \<open>\<^verbatim>\<open>models/locator-generation-request.ts\<close>.\<close>

record LocatorGenerationRequest =
  originalLocator :: string
  page :: page
  errorMessage :: "string option"
  elementDescription :: "string option"

text \<open>What the call \<^verbatim>\<open>openai.chat.completions.create\<close> and the parse of its content come
  to: the call rejects, the content is empty, the content is no JSON, or an object is
  parsed.\<close>

datatype completion =
    ApiFailure
  | EmptyContent
  | InvalidJson
  | Parsed LocatorGenerationResponse

text \<open>\<^verbatim>\<open>models/self-healing-config\<close>, as \<^verbatim>\<open>config-manager\<close> declares it.\<close>

record SelfHealingConfig =
  useSmartLocator :: bool
  runWithSmartLocator :: bool
  cachePath :: string
  openApiModel :: string
  openApiKey :: string
  cacheExpirationDays :: int
  maxRetries :: nat
  timeout :: nat
  enableLogging :: bool
  logLevel :: string

section \<open>LocalCache (src/utils/cache.ts)\<close>

text \<open>\<^verbatim>\<open>Omit<CacheEntry, "timestamp" | "successCount" | "failureCount">\<close> is the argument of
  \<^verbatim>\<open>set\<close>; \<^verbatim>\<open>CacheEntry\<close> extends it. The strategy is a string at run time: the union type is
  not checked when a document is loaded.\<close>

record CacheEntryInput =
  originalLocator :: string
  generatedLocator :: string
  strategy :: string

record CacheEntry = CacheEntryInput +
  timestamp :: string
  successCount :: int
  failureCount :: int

record CacheStatistics =
  totalEntries :: nat
  oldestEntry :: "string option"
  newestEntry :: "string option"
  hitRate :: real
  totalHits :: nat
  totalMisses :: nat

text \<open>
  The object's fields. \<open>cache\<close> is the \<^verbatim>\<open>Map\<close>, in insertion order: \<^verbatim>\<open>Map.set\<close> on a present
  key replaces the value in place and on a new key appends, which is \<^const>\<open>AList.update\<close>.
  \<open>fs\<close> is the file system the object reads and writes, threaded with its state.
\<close>

record LocalCache =
  cache :: "(string \<times> CacheEntry) list"
  cachePath :: string
  hits :: nat
  misses :: nat
  fs :: filesystem

definition typeof_string :: "json option \<Rightarrow> bool" where
  "typeof_string v = (case v of Some (JStr s) \<Rightarrow> True | _ \<Rightarrow> False)"

definition typeof_number :: "json option \<Rightarrow> bool" where
  "typeof_number v = (case v of Some (JNum n) \<Rightarrow> True | _ \<Rightarrow> False)"

text \<open>\<^verbatim>\<open>isValidCacheEntry\<close>. A falsy entry stops at \<^verbatim>\<open>entry &&\<close>; on any other value that is
  not an object the property reads give \<^verbatim>\<open>undefined\<close>.\<close>

definition isValidCacheEntry :: "json \<Rightarrow> bool" where
  "isValidCacheEntry entry =
     (case entry of
        JObj ps \<Rightarrow>
          typeof_string (map_of ps ''originalLocator'') \<and>
          typeof_string (map_of ps ''generatedLocator'') \<and>
          typeof_string (map_of ps ''strategy'') \<and>
          typeof_string (map_of ps ''timestamp'') \<and>
          typeof_number (map_of ps ''successCount'') \<and>
          typeof_number (map_of ps ''failureCount'')
      | _ \<Rightarrow> False)"

definition str_field :: "(string \<times> json) list \<Rightarrow> string \<Rightarrow> string" where
  "str_field ps f = (case map_of ps f of Some (JStr s) \<Rightarrow> s | _ \<Rightarrow> [])"

definition num_field :: "(string \<times> json) list \<Rightarrow> string \<Rightarrow> int" where
  "num_field ps f = (case map_of ps f of Some (JNum n) \<Rightarrow> n | _ \<Rightarrow> 0)"

text \<open>The cast \<^verbatim>\<open>entry as CacheEntry\<close> of \<^verbatim>\<open>loadCache\<close>, read on an entry that passed
  \<^const>\<open>isValidCacheEntry\<close>. Properties beyond the six are not kept.\<close>

definition asCacheEntry :: "json \<Rightarrow> CacheEntry" where
  "asCacheEntry entry =
     (case entry of
        JObj ps \<Rightarrow>
          \<lparr> originalLocator = str_field ps ''originalLocator'',
            generatedLocator = str_field ps ''generatedLocator'',
            strategy = str_field ps ''strategy'',
            timestamp = str_field ps ''timestamp'',
            successCount = num_field ps ''successCount'',
            failureCount = num_field ps ''failureCount'' \<rparr>
      | _ \<Rightarrow>
          \<lparr> originalLocator = [], generatedLocator = [], strategy = [],
            timestamp = [], successCount = 0, failureCount = 0 \<rparr>)"

text \<open>What \<^verbatim>\<open>JSON.stringify\<close> writes for one entry and for the whole \<^verbatim>\<open>Map\<close>
  (\<^verbatim>\<open>Object.fromEntries(this.cache)\<close>). ECMAScript lists the keys that are array indices
  first; the model keeps the insertion order, which changes no lookup.\<close>

definition entryToJson :: "CacheEntry \<Rightarrow> json" where
  "entryToJson e =
     JObj [(''originalLocator'', JStr (originalLocator e)),
           (''generatedLocator'', JStr (generatedLocator e)),
           (''strategy'', JStr (CacheEntryInput.strategy e)),
           (''timestamp'', JStr (timestamp e)),
           (''successCount'', JNum (successCount e)),
           (''failureCount'', JNum (failureCount e))]"

definition cacheObject :: "(string \<times> CacheEntry) list \<Rightarrow> json" where
  "cacheObject c = JObj (map (\<lambda>(k, e). (k, entryToJson e)) c)"

fun string_of_nat :: "nat \<Rightarrow> string" where
  "string_of_nat n =
     (if n < 10 then [char_of (48 + n)]
      else string_of_nat (n div 10) @ [char_of (48 + n mod 10)])"

declare string_of_nat.simps [simp del]

text \<open>\<^verbatim>\<open>Object.entries(cacheData)\<close>: a \<^verbatim>\<open>TypeError\<close> on \<^verbatim>\<open>null\<close> (here \<open>None\<close>), nothing for a
  boolean or a number, the indexed items of a string or an array, the properties of an
  object.\<close>

definition Object_entries :: "json \<Rightarrow> (string \<times> json) list option" where
  "Object_entries v =
     (case v of
        JNull \<Rightarrow> None
      | JBool b \<Rightarrow> Some []
      | JNum n \<Rightarrow> Some []
      | JStr s \<Rightarrow> Some (map (\<lambda>(i, c). (string_of_nat i, JStr [c])) (enumerate 0 s))
      | JArr xs \<Rightarrow> Some (map (\<lambda>(i, x). (string_of_nat i, x)) (enumerate 0 xs))
      | JObj ps \<Rightarrow> Some ps)"

text \<open>The test of \<^verbatim>\<open>cleanupExpiredEntries\<close>: with an unparsable timestamp the age is NaN
  and \<^verbatim>\<open>NaN > maxAge\<close> is false.\<close>

definition expired :: "js_date \<Rightarrow> int \<Rightarrow> int \<Rightarrow> CacheEntry \<Rightarrow> bool" where
  "expired D now maxAgeInDays entry =
     (case getTime D (timestamp entry) of
        None \<Rightarrow> False
      | Some t \<Rightarrow> now - t > maxAgeInDays * 24 * 60 * 60 * 1000)"

definition cleanupExpiredEntries :: "js_date \<Rightarrow> int \<Rightarrow> int \<Rightarrow> LocalCache \<Rightarrow> LocalCache" where
  "cleanupExpiredEntries D now maxAgeInDays st =
     st\<lparr>cache := filter (\<lambda>(key, entry). \<not> expired D now maxAgeInDays entry) (cache st)\<rparr>"

text \<open>The loop of \<^verbatim>\<open>loadCache\<close> over the entries of the document.\<close>

fun loadEntries :: "(string \<times> json) list \<Rightarrow> (string \<times> CacheEntry) list \<Rightarrow> (string \<times> CacheEntry) list" where
  "loadEntries [] c = c"
| "loadEntries ((key, entry) # rest) c =
     loadEntries rest (if isValidCacheEntry entry then AList.update key (asCacheEntry entry) c else c)"

text \<open>\<^verbatim>\<open>loadCache\<close>. The \<^verbatim>\<open>catch\<close> clears the map; it is reached when the file cannot be read
  or parsed and when \<^verbatim>\<open>Object.entries\<close> throws. \<^verbatim>\<open>cleanupExpiredEntries()\<close> is called
  without an argument, so with its default of 2 days.\<close>

definition loadCache :: "js_date \<Rightarrow> int \<Rightarrow> LocalCache \<Rightarrow> LocalCache" where
  "loadCache D now st =
     (case files (fs st) (LocalCache.cachePath st) of
        NoFile \<Rightarrow> st
      | Corrupt \<Rightarrow> st\<lparr>cache := []\<rparr>
      | Document cacheData \<Rightarrow>
          (case Object_entries cacheData of
             None \<Rightarrow> st\<lparr>cache := []\<rparr>
           | Some ps \<Rightarrow> cleanupExpiredEntries D now 2 (st\<lparr>cache := loadEntries ps (cache st)\<rparr>)))"

text \<open>\<^verbatim>\<open>saveCache\<close>: the whole map replaces the file; a failed write is caught and only
  logged to the console.\<close>

definition saveCache :: "LocalCache \<Rightarrow> LocalCache" where
  "saveCache st =
     (if write_ok (fs st)
      then st\<lparr>fs := (fs st)\<lparr>files := (files (fs st))(LocalCache.cachePath st := Document (cacheObject (cache st)))\<rparr>\<rparr>
      else st)"

text \<open>The constructor. The directory of the path is not modelled.\<close>

definition LocalCache_new :: "js_date \<Rightarrow> int \<Rightarrow> string \<Rightarrow> filesystem \<Rightarrow> LocalCache" where
  "LocalCache_new D now path fsys =
     loadCache D now \<lparr> cache = [], cachePath = path, hits = 0, misses = 0, fs = fsys \<rparr>"

text \<open>\<^verbatim>\<open>getInstance\<close>: the singleton is kept unless there is none or the path differs. The
  file system of a kept instance is the one it has been writing to.\<close>

definition LocalCache_getInstance ::
  "js_date \<Rightarrow> int \<Rightarrow> LocalCache option \<Rightarrow> string \<Rightarrow> filesystem \<Rightarrow> LocalCache" where
  "LocalCache_getInstance D now inst path fsys =
     (case inst of
        None \<Rightarrow> LocalCache_new D now path fsys
      | Some i \<Rightarrow> if LocalCache.cachePath i \<noteq> path then LocalCache_new D now path (fs i) else i)"

definition LocalCache_get :: "string \<Rightarrow> LocalCache \<Rightarrow> CacheEntry option \<times> LocalCache" where
  "LocalCache_get key st =
     (case map_of (cache st) key of
        Some entry \<Rightarrow> (Some entry, st\<lparr>hits := hits st + 1\<rparr>)
      | None \<Rightarrow> (None, st\<lparr>misses := misses st + 1\<rparr>))"

text \<open>The object \<^verbatim>\<open>{ ...entry, timestamp: new Date().toISOString(), successCount: 0,
  failureCount: 0 }\<close> of \<^verbatim>\<open>set\<close>, at the time \<open>now\<close>.\<close>

definition cacheEntry :: "js_date \<Rightarrow> int \<Rightarrow> CacheEntryInput \<Rightarrow> CacheEntry" where
  "cacheEntry D now entry =
     \<lparr> originalLocator = originalLocator entry,
       generatedLocator = generatedLocator entry,
       strategy = CacheEntryInput.strategy entry,
       timestamp = toISOString D now,
       successCount = 0,
       failureCount = 0 \<rparr>"

definition LocalCache_set :: "js_date \<Rightarrow> int \<Rightarrow> string \<Rightarrow> CacheEntryInput \<Rightarrow> LocalCache \<Rightarrow> LocalCache" where
  "LocalCache_set D now key entry st =
     saveCache (st\<lparr>cache := AList.update key (cacheEntry D now entry) (cache st)\<rparr>)"

definition updateSuccess :: "string \<Rightarrow> LocalCache \<Rightarrow> LocalCache" where
  "updateSuccess key st =
     (case map_of (cache st) key of
        Some entry \<Rightarrow>
          saveCache (st\<lparr>cache := AList.update key (entry\<lparr>successCount := successCount entry + 1\<rparr>) (cache st)\<rparr>)
      | None \<Rightarrow> st)"

definition updateFailure :: "string \<Rightarrow> LocalCache \<Rightarrow> LocalCache" where
  "updateFailure key st =
     (case map_of (cache st) key of
        Some entry \<Rightarrow>
          saveCache (st\<lparr>cache := AList.update key (entry\<lparr>failureCount := failureCount entry + 1\<rparr>) (cache st)\<rparr>)
      | None \<Rightarrow> st)"

definition LocalCache_delete :: "string \<Rightarrow> LocalCache \<Rightarrow> bool \<times> LocalCache" where
  "LocalCache_delete key st =
     (if key \<in> fst ` set (cache st)
      then (True, saveCache (st\<lparr>cache := AList.delete key (cache st)\<rparr>))
      else (False, st))"

definition LocalCache_clear :: "LocalCache \<Rightarrow> LocalCache" where
  "LocalCache_clear st = saveCache (st\<lparr>cache := []\<rparr>)"

text \<open>The comparator of the sort in \<^verbatim>\<open>getStatistics\<close> is the difference of the two times,
  NaN when one of them does not parse; a NaN counts as 0. The sort is stable. With an
  unparsable timestamp in the array the comparator is inconsistent and ECMAScript leaves
  the order to the implementation; the model then gives the order of insertion sort.\<close>

definition comesAfter :: "js_date \<Rightarrow> CacheEntry \<Rightarrow> CacheEntry \<Rightarrow> bool" where
  "comesAfter D a b =
     (case (getTime D (timestamp a), getTime D (timestamp b)) of
        (Some x, Some y) \<Rightarrow> x - y > 0
      | _ \<Rightarrow> False)"

fun insertByDate :: "js_date \<Rightarrow> CacheEntry \<Rightarrow> CacheEntry list \<Rightarrow> CacheEntry list" where
  "insertByDate D a [] = [a]"
| "insertByDate D a (b # bs) = (if comesAfter D a b then b # insertByDate D a bs else a # b # bs)"

definition sortByDate :: "js_date \<Rightarrow> CacheEntry list \<Rightarrow> CacheEntry list" where
  "sortByDate D entries = foldr (insertByDate D) entries []"

text \<open>\<^verbatim>\<open>Math.round\<close> rounds to the nearest integer, a tie upwards.\<close>

definition Math_round :: "real \<Rightarrow> real" where
  "Math_round x = of_int \<lfloor>x + 1 / 2\<rfloor>"

text \<open>
  \<^verbatim>\<open>getStatistics\<close>. The hit rate is computed on JavaScript numbers: the counters are
  integers, exact below \<open>2^53\<close>, and each division and multiplication rounds its exact
  result to a number. \<open>fl\<close> is that rounding, a parameter of the model.
\<close>

definition getStatistics :: "(real \<Rightarrow> real) \<Rightarrow> js_date \<Rightarrow> LocalCache \<Rightarrow> CacheStatistics" where
  "getStatistics fl D st =
     (let entries = map snd (cache st);
          n = length entries;
          sortedByDate = sortByDate D entries;
          totalRequests = hits st + misses st;
          rate = (if totalRequests > 0
                  then fl (fl (real (hits st) / real totalRequests) * 100)
                  else 0)
      in \<lparr> totalEntries = n,
           oldestEntry = (if n > 0 then Some (timestamp (hd sortedByDate)) else None),
           newestEntry = (if n > 0 then Some (timestamp (last sortedByDate)) else None),
           hitRate = fl (Math_round (fl (rate * 100)) / 100),
           totalHits = hits st,
           totalMisses = misses st \<rparr>)"

definition getAllEntries :: "LocalCache \<Rightarrow> (string \<times> CacheEntry) list" where
  "getAllEntries st = cache st"

text \<open>The public operations of the store, and a run of them on one store. A write carries
  the time at which it happens.\<close>

datatype cache_op =
    Get string
  | Set int string CacheEntryInput
  | UpdateSuccess string
  | UpdateFailure string
  | Delete string
  | Clear
  | SaveCache
  | GetStatistics
  | GetAllEntries

fun step :: "js_date \<Rightarrow> cache_op \<Rightarrow> LocalCache \<Rightarrow> LocalCache" where
  "step D (Get key) st = snd (LocalCache_get key st)"
| "step D (Set now key entry) st = LocalCache_set D now key entry st"
| "step D (UpdateSuccess key) st = updateSuccess key st"
| "step D (UpdateFailure key) st = updateFailure key st"
| "step D (Delete key) st = snd (LocalCache_delete key st)"
| "step D Clear st = LocalCache_clear st"
| "step D SaveCache st = saveCache st"
| "step D GetStatistics st = st"
| "step D GetAllEntries st = st"

fun run :: "js_date \<Rightarrow> cache_op list \<Rightarrow> LocalCache \<Rightarrow> LocalCache" where
  "run D [] st = st"
| "run D (op # ops) st = run D ops (step D op st)"

fun isGet :: "cache_op \<Rightarrow> bool" where
  "isGet (Get key) = True"
| "isGet _ = False"

section \<open>ConfigManager\<close>

definition isSmartLocatorEnabled :: "SelfHealingConfig \<Rightarrow> bool" where
  "isSmartLocatorEnabled config = (useSmartLocator config \<and> openApiKey config \<noteq> [])"

definition shouldRunWithSmartLocator :: "SelfHealingConfig \<Rightarrow> bool" where
  "shouldRunWithSmartLocator config = (runWithSmartLocator config \<and> isSmartLocatorEnabled config)"

section \<open>Errors, the logger and the singletons\<close>

datatype error =
    SelfHealingLocatorError string string "string option"
  | Error string

text \<open>The calls made on the \<^verbatim>\<open>Logger\<close>, in order. The level only decides what reaches the
  console.\<close>

datatype log_call =
    Log_error string
  | Log_warn string
  | LogSmartLocatorGeneration string string string
  | LogCacheHit string string
  | LogCacheMiss string
  | LogApiCall string
  | LogSelfHealingSuccess string string
  | LogSelfHealingFailure string string

text \<open>
  The process-wide instances: the configuration of \<^verbatim>\<open>ConfigManager\<close>; the copy of it that
  \<^verbatim>\<open>SmartLocatorGenerator\<close> took when it was constructed, its OpenAI client (\<open>None\<close> for
  \<^verbatim>\<open>null\<close>, otherwise holding the key) and its \<^verbatim>\<open>LocalCache\<close>; the logger's calls.
\<close>

record state =
  configManager :: SelfHealingConfig
  generator_config :: SelfHealingConfig
  openai :: "string option"
  localCache :: LocalCache
  logger :: "log_call list"

definition logCall :: "log_call \<Rightarrow> state \<Rightarrow> state" where
  "logCall c s = s\<lparr>logger := logger s @ [c]\<rparr>"

section \<open>SmartLocatorGenerator\<close>

text \<open>The constructor, with the configuration \<^verbatim>\<open>ConfigManager.getInstance().getConfig()\<close>
  returns at that moment and no \<^verbatim>\<open>LocalCache\<close> instance yet. Only the path reaches the
  store.\<close>

definition SmartLocatorGenerator_new :: "js_date \<Rightarrow> int \<Rightarrow> SelfHealingConfig \<Rightarrow> filesystem \<Rightarrow> state" where
  "SmartLocatorGenerator_new D now config fsys =
     \<lparr> configManager = config,
       generator_config = config,
       openai = (if openApiKey config \<noteq> [] then Some (openApiKey config) else None),
       localCache = LocalCache_getInstance D now None (SelfHealingConfig.cachePath config) fsys,
       logger = (if openApiKey config \<noteq> [] then []
                 else [Log_warn ''OpenAI API key not provided. Smart locator generation will be disabled.'']) \<rparr>"

text \<open>\<^verbatim>\<open>callOpenAI\<close>: every failure inside its \<^verbatim>\<open>try\<close> is logged and gives \<^verbatim>\<open>null\<close>. The reply
  is refused when its locator or its strategy is falsy.\<close>

definition callOpenAI :: "completion \<Rightarrow> state \<Rightarrow> LocatorGenerationResponse option \<times> state" where
  "callOpenAI reply s =
     (let s1 = logCall (LogApiCall (openApiModel (generator_config s))) s;
          failed = (None, logCall (Log_error ''OpenAI API call failed'') s1)
      in case reply of
           ApiFailure \<Rightarrow> failed
         | EmptyContent \<Rightarrow> failed
         | InvalidJson \<Rightarrow> failed
         | Parsed parsed \<Rightarrow>
             if locator parsed = [] \<or> LocatorGenerationResponse.strategy parsed = []
             then failed
             else (Some parsed, s1))"

text \<open>\<^verbatim>\<open>generateSmartLocator\<close>. \<open>reply\<close> is what the provider answers if it is asked. The
  page context only feeds the prompt and its extraction catches its own errors.\<close>

definition generateSmartLocator ::
  "js_date \<Rightarrow> int \<Rightarrow> completion \<Rightarrow> LocatorGenerationRequest \<Rightarrow> state \<Rightarrow> string option \<times> state" where
  "generateSmartLocator D now reply request s =
     (let key = LocatorGenerationRequest.originalLocator request;
          looked = LocalCache_get key (localCache s);
          s1 = s\<lparr>localCache := snd looked\<rparr>
      in case fst looked of
           Some cachedEntry \<Rightarrow>
             (Some (generatedLocator cachedEntry),
              logCall (LogCacheHit key (generatedLocator cachedEntry)) s1)
         | None \<Rightarrow>
             (let s2 = logCall (LogCacheMiss key) s1
              in if openai s2 = None
                 then (None, logCall (Log_error ''OpenAI client not initialized. Cannot generate smart locator.'') s2)
                 else (case callOpenAI reply s2 of
                         (Some response, s3) \<Rightarrow>
                           (let s4 = s3\<lparr>localCache :=
                                        LocalCache_set D now key
                                          \<lparr> originalLocator = key,
                                            generatedLocator = locator response,
                                            strategy = LocatorGenerationResponse.strategy response \<rparr>
                                          (localCache s3)\<rparr>
                            in (Some (locator response),
                                logCall (LogSmartLocatorGeneration key (locator response)
                                           (LocatorGenerationResponse.strategy response)) s4))
                       | (None, s3) \<Rightarrow> (None, s3))))"

definition validateLocator :: "page \<Rightarrow> string \<Rightarrow> nat \<Rightarrow> bool" where
  "validateLocator p loc t = attached p loc t"

definition updateCacheSuccess :: "string \<Rightarrow> state \<Rightarrow> state" where
  "updateCacheSuccess key s = s\<lparr>localCache := updateSuccess key (localCache s)\<rparr>"

definition updateCacheFailure :: "string \<Rightarrow> state \<Rightarrow> state" where
  "updateCacheFailure key s = s\<lparr>localCache := updateFailure key (localCache s)\<rparr>"

section \<open>PlaywrightSelfHealing (src/extensions/playwright-extensions.ts)\<close>

definition optionsTimeout :: "SelfHealingOptions \<Rightarrow> nat" where
  "optionsTimeout options = (case SelfHealingOptions.timeout options of Some t \<Rightarrow> t | None \<Rightarrow> 5000)"

text \<open>\<^verbatim>\<open>resolveSmartLocator\<close>. A thrown error is \<open>Inl\<close>. The empty string is falsy for
  \<^verbatim>\<open>!smartLocator\<close>, as \<^verbatim>\<open>null\<close> is.\<close>

definition resolveSmartLocator ::
  "js_date \<Rightarrow> int \<Rightarrow> completion \<Rightarrow> page \<Rightarrow> string \<Rightarrow> SelfHealingOptions \<Rightarrow> state \<Rightarrow> (error + string) \<times> state" where
  "resolveSmartLocator D now reply pg original options s =
     (if \<not> isSmartLocatorEnabled (configManager s)
      then (Inl (SelfHealingLocatorError
                   (''Locator failed and smart locator is disabled: '' @ original) original None), s)
      else
        (let request = \<lparr> LocatorGenerationRequest.originalLocator = original,
                         LocatorGenerationRequest.page = pg,
                         LocatorGenerationRequest.errorMessage = Some ''Element not found with original locator'',
                         LocatorGenerationRequest.elementDescription =
                           SelfHealingOptions.elementDescription options \<rparr>;
             generated = generateSmartLocator D now reply request s;
             s1 = snd generated
         in case fst generated of
              None \<Rightarrow>
                (Inl (SelfHealingLocatorError (''Smart locator generation failed for: '' @ original) original None),
                 logCall (LogSelfHealingFailure original (''Smart locator generation failed for: '' @ original)) s1)
            | Some smartLocator \<Rightarrow>
                if smartLocator = []
                then (Inl (SelfHealingLocatorError (''Smart locator generation failed for: '' @ original) original None),
                      logCall (LogSelfHealingFailure original (''Smart locator generation failed for: '' @ original)) s1)
                else if validateLocator pg smartLocator (optionsTimeout options)
                then (Inr smartLocator,
                      logCall (LogSelfHealingSuccess original smartLocator) (updateCacheSuccess original s1))
                else (Inl (SelfHealingLocatorError (''Smart locator validation failed for: '' @ original)
                             original (Some smartLocator)),
                      logCall (LogSelfHealingFailure original (''Smart locator validation failed for: '' @ original))
                        (updateCacheFailure original s1))))"

datatype locator_handle = Locator string

definition suggestionMessage :: "string \<Rightarrow> string \<Rightarrow> string" where
  "suggestionMessage original smartLocator =
     [CHR 0x0A] @ ''Locator has been changed from:'' @ [CHR 0x0A] @
     ''    Old: '' @ original @ [CHR 0x0A] @
     ''    New: '' @ smartLocator @ [CHR 0x0A] @
     ''Please review and update the locator or create a bug''"

text \<open>\<^verbatim>\<open>getLocatorWithWait\<close>: the original locator first; its failure is swallowed.\<close>

definition getLocatorWithWait ::
  "js_date \<Rightarrow> int \<Rightarrow> completion \<Rightarrow> page \<Rightarrow> string \<Rightarrow> SelfHealingOptions \<Rightarrow> state \<Rightarrow> (error + locator_handle) \<times> state" where
  "getLocatorWithWait D now reply pg original options s =
     (if first_attached pg original (optionsTimeout options)
      then (Inr (Locator original), s)
      else (case resolveSmartLocator D now reply pg original options s of
              (Inl e, s1) \<Rightarrow> (Inl e, s1)
            | (Inr smartLocator, s1) \<Rightarrow>
                if shouldRunWithSmartLocator (configManager s1)
                then (Inr (Locator smartLocator), s1)
                else (Inl (Error (suggestionMessage original smartLocator)),
                      logCall (Log_warn (suggestionMessage original smartLocator)) s1)))"

text \<open>\<^verbatim>\<open>exists\<close> passes the options on with the timeout made explicit and turns every error
  into \<^verbatim>\<open>false\<close>.\<close>

definition exists ::
  "js_date \<Rightarrow> int \<Rightarrow> completion \<Rightarrow> page \<Rightarrow> string \<Rightarrow> SelfHealingOptions \<Rightarrow> state \<Rightarrow> bool \<times> state" where
  "exists D now reply pg original options s =
     (case getLocatorWithWait D now reply pg original
             (options\<lparr>SelfHealingOptions.timeout := Some (optionsTimeout options)\<rparr>) s of
        (Inr l, s1) \<Rightarrow> (True, s1)
      | (Inl e, s1) \<Rightarrow> (False, s1))"

section \<open>Notions used to state the properties\<close>

text \<open>A run of writes through \<^verbatim>\<open>set\<close>: each with its time, key and argument.\<close>

definition writes_of :: "(int \<times> string \<times> CacheEntryInput) list \<Rightarrow> cache_op list" where
  "writes_of ws = map (\<lambda>(t, k, e). Set t k e) ws"

text \<open>
  What is assumed of the rounding \<open>fl\<close> of JavaScript numbers: zero is exact, and a positive
  result in the stated range is rounded with a relative error of at most \<open>2^-53\<close>, as binary64
  with round-to-nearest does for every normal number. Exact arithmetic satisfies it too.
\<close>

definition rounds_like_binary64 :: "(real \<Rightarrow> real) \<Rightarrow> bool" where
  "rounds_like_binary64 fl =
     (fl 0 = 0 \<and> (\<forall>x. 1 / 10 ^ 15 \<le> x \<and> x \<le> 10 ^ 15 \<longrightarrow> \<bar>fl x - x\<bar> \<le> x / 2 ^ 53))"

text \<open>
  Binary64 itself, for the numbers the hit rate goes through (no overflow, no subnormal
  numbers): a positive \<open>x\<close> is scaled by the power of two \<open>ulp x\<close> that brings it into
  \<open>[2^52, 2^53)\<close>, rounded there to the nearest integer, a tie to the even one, and scaled
  back. The search for the power of two is bounded by the exponent range of the format.
\<close>

definition round_half_even :: "real \<Rightarrow> int" where
  "round_half_even y =
     (let f = \<lfloor>y\<rfloor>; d = y - of_int f
      in if d < 1 / 2 then f else if 1 / 2 < d then f + 1 else if even f then f else f + 1)"

fun scale_down :: "nat \<Rightarrow> real \<Rightarrow> real \<Rightarrow> real" where
  "scale_down 0 x u = u"
| "scale_down (Suc n) x u = (if x / u < 2 ^ 52 then scale_down n x (u / 2) else u)"

fun scale_up :: "nat \<Rightarrow> real \<Rightarrow> real \<Rightarrow> real" where
  "scale_up 0 x u = u"
| "scale_up (Suc n) x u = (if 2 ^ 53 \<le> x / u then scale_up n x (u * 2) else u)"

definition ulp :: "real \<Rightarrow> real" where
  "ulp x = (if x < 2 ^ 52 then scale_down 1126 x 1 else scale_up 971 x 1)"

definition binary64 :: "real \<Rightarrow> real" where
  "binary64 x =
     (if x = 0 then 0
      else sgn x * of_int (round_half_even (\<bar>x\<bar> / ulp \<bar>x\<bar>)) * ulp \<bar>x\<bar>)"

section \<open>Example values\<close>

text \<open>The two \<^verbatim>\<open>Date\<close> functions on three instants: midnight of 1 January 2026 (UTC), 36
  hours later and three days later.\<close>

definition example_date :: js_date where
  "example_date =
     \<lparr> toISOString = (\<lambda>t. if t = 1767225600000 then ''2026-01-01T00:00:00.000Z''
                          else if t = 1767355200000 then ''2026-01-02T12:00:00.000Z''
                          else ''2026-01-04T00:00:00.000Z''),
       getTime = (\<lambda>s. if s = ''2026-01-01T00:00:00.000Z'' then Some 1767225600000
                      else if s = ''2026-01-02T12:00:00.000Z'' then Some 1767355200000
                      else if s = ''2026-01-04T00:00:00.000Z'' then Some 1767484800000
                      else None) \<rparr>"

definition example_config :: SelfHealingConfig where
  "example_config =
     \<lparr> SelfHealingConfig.useSmartLocator = True,
       SelfHealingConfig.runWithSmartLocator = False,
       SelfHealingConfig.cachePath = ''cache/locator_cache.json'',
       SelfHealingConfig.openApiModel = ''gpt-4o-mini'',
       SelfHealingConfig.openApiKey = ''sk-example'',
       SelfHealingConfig.cacheExpirationDays = 2,
       SelfHealingConfig.maxRetries = 3,
       SelfHealingConfig.timeout = 30000,
       SelfHealingConfig.enableLogging = True,
       SelfHealingConfig.logLevel = ''info'' \<rparr>"

definition example_entry :: CacheEntry where
  "example_entry =
     \<lparr> originalLocator = ''#old-id'',
       generatedLocator = ''[data-testid=submit]'',
       strategy = ''CSS'',
       timestamp = ''2026-01-01T00:00:00.000Z'',
       successCount = 0,
       failureCount = 0 \<rparr>"

definition empty_disk :: filesystem where
  "empty_disk = \<lparr> files = (\<lambda>p. NoFile), write_ok = True \<rparr>"

definition example_disk :: filesystem where
  "example_disk =
     \<lparr> files = (\<lambda>p. if p = ''cache/locator_cache.json''
                     then Document (cacheObject [(''#old-id'', example_entry)]) else NoFile),
       write_ok = True \<rparr>"

definition example_store :: LocalCache where
  "example_store =
     \<lparr> cache = [(''#old-id'', example_entry)],
       cachePath = ''cache/locator_cache.json'',
       hits = 0,
       misses = 0,
       fs = example_disk \<rparr>"

definition empty_store :: LocalCache where
  "empty_store =
     \<lparr> cache = [], cachePath = ''cache/locator_cache.json'', hits = 0, misses = 0, fs = empty_disk \<rparr>"

definition example_state :: state where
  "example_state =
     \<lparr> configManager = example_config,
       generator_config = example_config,
       openai = Some ''sk-example'',
       localCache = example_store,
       logger = [] \<rparr>"

definition example_options :: SelfHealingOptions where
  "example_options = \<lparr> SelfHealingOptions.timeout = None, SelfHealingOptions.elementDescription = None \<rparr>"

definition example_reply :: completion where
  "example_reply =
     Parsed \<lparr> LocatorGenerationResponse.locator = ''button.submit'',
              LocatorGenerationResponse.strategy = ''CSS'',
              LocatorGenerationResponse.confidence = 80,
              LocatorGenerationResponse.reasoning = None \<rparr>"

text \<open>A page on which exactly the given selectors are attached, each to one element.\<close>

definition page_with :: "string list \<Rightarrow> page" where
  "page_with sels =
     \<lparr> first_attached = (\<lambda>sel t. sel \<in> set sels), attached = (\<lambda>sel t. sel \<in> set sels) \<rparr>"

text \<open>The example state in healing mode, with healing disabled, and without an OpenAI
  client.\<close>

definition healing_state :: state where
  "healing_state = example_state\<lparr>configManager := example_config\<lparr>runWithSmartLocator := True\<rparr>\<rparr>"

definition disabled_state :: state where
  "disabled_state = example_state\<lparr>configManager := example_config\<lparr>useSmartLocator := False\<rparr>\<rparr>"

definition clientless_state :: state where
  "clientless_state = example_state\<lparr>openai := None\<rparr>"

section \<open>Facts about the store\<close>

lemma saveCache_fields [simp]:
  "cache (saveCache st) = cache st"
  "hits (saveCache st) = hits st"
  "misses (saveCache st) = misses st"
  "LocalCache.cachePath (saveCache st) = LocalCache.cachePath st"
  "write_ok (fs (saveCache st)) = write_ok (fs st)"
  by (simp_all add: saveCache_def)

lemma step_requests:
  "hits (step D op st) + misses (step D op st) = hits st + misses st + (if isGet op then 1 else 0)"
  by (cases op)
     (simp_all add: LocalCache_get_def LocalCache_set_def updateSuccess_def updateFailure_def
        LocalCache_delete_def LocalCache_clear_def Let_def split: option.splits)

lemma run_requests:
  "hits (run D ops st) + misses (run D ops st) = hits st + misses st + length (filter isGet ops)"
  by (induction ops arbitrary: st) (simp_all add: step_requests)

lemma loadCache_counters [simp]:
  "hits (loadCache D now st) = hits st" "misses (loadCache D now st) = misses st"
  by (simp_all add: loadCache_def cleanupExpiredEntries_def split: file_content.splits option.splits)

lemma LocalCache_new_counters [simp]:
  "hits (LocalCache_new D now path fsys) = 0" "misses (LocalCache_new D now path fsys) = 0"
  by (simp_all add: LocalCache_new_def)

lemma step_invariants:
  "LocalCache.cachePath (step D op st) = LocalCache.cachePath st"
  "write_ok (fs (step D op st)) = write_ok (fs st)"
  "distinct (map fst (cache st)) \<Longrightarrow> distinct (map fst (cache (step D op st)))"
  by (cases op;
      simp add: LocalCache_get_def LocalCache_set_def updateSuccess_def updateFailure_def
        LocalCache_delete_def LocalCache_clear_def distinct_update distinct_delete
        split: option.splits)+

lemma run_invariants:
  "LocalCache.cachePath (run D ops st) = LocalCache.cachePath st"
  "write_ok (fs (run D ops st)) = write_ok (fs st)"
  "distinct (map fst (cache st)) \<Longrightarrow> distinct (map fst (cache (run D ops st)))"
  by (induction ops arbitrary: st) (simp_all add: step_invariants)

lemma run_append: "run D (xs @ ys) st = run D ys (run D xs st)"
  by (induction xs arbitrary: st) simp_all

subsection \<open>Loading a document\<close>

lemma asCacheEntry_entryToJson [simp]: "asCacheEntry (entryToJson e) = e"
  by (simp add: asCacheEntry_def entryToJson_def str_field_def num_field_def)

lemma isValidCacheEntry_entryToJson [simp]: "isValidCacheEntry (entryToJson e)"
  by (simp add: isValidCacheEntry_def entryToJson_def typeof_string_def typeof_number_def)

lemma distinct_loadEntries:
  "distinct (map fst c) \<Longrightarrow> distinct (map fst (loadEntries ps c))"
  by (induction ps c rule: loadEntries.induct) (simp_all add: distinct_update)

lemma map_of_loadEntries:
  "distinct (map fst ps) \<Longrightarrow>
   map_of (loadEntries ps c) k =
     (case map_of ps k of
        Some j \<Rightarrow> if isValidCacheEntry j then Some (asCacheEntry j) else map_of c k
      | None \<Rightarrow> map_of c k)"
proof (induction ps c rule: loadEntries.induct)
  case (1 c)
  show ?case by simp
next
  case (2 key entry rest c)
  then have nk: "map_of rest key = None" and d: "distinct (map fst rest)"
    by (auto simp: map_of_eq_None_iff)
  show ?case
    using 2 nk d by (auto simp: update_conv' split: option.splits)
qed

lemma map_of_filter_snd:
  "distinct (map fst c) \<Longrightarrow>
   map_of (filter (\<lambda>(k, e). P e) c) k =
     (case map_of c k of Some e \<Rightarrow> if P e then Some e else None | None \<Rightarrow> None)"
proof (induction c)
  case Nil
  show ?case by simp
next
  case (Cons a c)
  obtain k' e' where a: "a = (k', e')" by (cases a)
  from Cons.prems a have nk: "map_of c k' = None" by (auto simp: map_of_eq_None_iff)
  from Cons a nk show ?case by (auto split: option.splits)
qed

lemma map_of_loaded_document:
  assumes "distinct (map fst ps)"
  shows "map_of (cache (LocalCache_new D now p (fsys\<lparr>files := (files fsys)(p := Document (JObj ps))\<rparr>))) k =
     (case map_of ps k of
        Some j \<Rightarrow> if isValidCacheEntry j \<and> \<not> expired D now 2 (asCacheEntry j)
                  then Some (asCacheEntry j) else None
      | None \<Rightarrow> None)"
proof -
  have d: "distinct (map fst (loadEntries ps []))"
    by (rule distinct_loadEntries) simp
  show ?thesis
    using assms d
    by (simp add: LocalCache_new_def loadCache_def Object_entries_def cleanupExpiredEntries_def
        map_of_filter_snd map_of_loadEntries split: option.splits)
qed

lemma map_of_cacheObject_entries:
  "map_of (map (\<lambda>(k, e). (k, entryToJson e)) c) k = map_option entryToJson (map_of c k)"
  by (induction c) auto

lemma map_of_reloaded:
  assumes "distinct (map fst (cache st))"
    and "files (fs st) (LocalCache.cachePath st) = Document (cacheObject (cache st))"
  shows "map_of (cache (LocalCache_new D now (LocalCache.cachePath st) (fs st))) k =
     (case map_of (cache st) k of
        Some e \<Rightarrow> if expired D now 2 e then None else Some e
      | None \<Rightarrow> None)"
proof -
  let ?ps = "map (\<lambda>(k, e). (k, entryToJson e)) (cache st)"
  have keys: "fst \<circ> (\<lambda>(k, e). (k, entryToJson e)) = (fst :: string \<times> CacheEntry \<Rightarrow> string)"
    by (simp add: fun_eq_iff)
  have same: "(fs st)\<lparr>files := (files (fs st))(LocalCache.cachePath st := Document (JObj ?ps))\<rparr> = fs st"
    using assms(2) by (simp add: cacheObject_def fun_upd_idem)
  have "map_of (cache (LocalCache_new D now (LocalCache.cachePath st)
          ((fs st)\<lparr>files := (files (fs st))(LocalCache.cachePath st := Document (JObj ?ps))\<rparr>))) k =
     (case map_of ?ps k of
        Some j \<Rightarrow> if isValidCacheEntry j \<and> \<not> expired D now 2 (asCacheEntry j)
                  then Some (asCacheEntry j) else None
      | None \<Rightarrow> None)"
    by (rule map_of_loaded_document) (simp add: keys assms(1))
  then show ?thesis
    by (simp add: same map_of_cacheObject_entries split: option.splits)
qed

subsection \<open>Writes\<close>

lemma set_in_sync:
  "write_ok (fs st) \<Longrightarrow>
   files (fs (LocalCache_set D now key entry st)) (LocalCache.cachePath (LocalCache_set D now key entry st)) =
     Document (cacheObject (cache (LocalCache_set D now key entry st)))"
  by (simp add: LocalCache_set_def saveCache_def)

lemma writes_in_sync:
  assumes "write_ok (fs st)" and "ws \<noteq> []"
  shows "files (fs (run D (writes_of ws) st)) (LocalCache.cachePath (run D (writes_of ws) st)) =
     Document (cacheObject (cache (run D (writes_of ws) st)))"
proof -
  from assms(2) obtain ws' t k e where ws: "ws = ws' @ [(t, k, e)]"
    by (metis rev_exhaust prod_cases3)
  have ok: "write_ok (fs (run D (writes_of ws') st))"
    using assms(1) by (simp add: run_invariants)
  show ?thesis
    using set_in_sync [OF ok, of D t k e]
    by (simp add: ws writes_of_def run_append)
qed

lemma written_entries:
  "(t, k, e) \<in> set ws \<Longrightarrow>
   \<exists>t' e'. (t', k, e') \<in> set ws \<and> map_of (cache (run D (writes_of ws) st)) k = Some (cacheEntry D t' e')"
proof (induction ws rule: rev_induct)
  case Nil
  then show ?case by simp
next
  case (snoc w ws)
  obtain t1 k1 e1 where w: "w = (t1, k1, e1)" by (cases w)
  show ?case
  proof (cases "k1 = k")
    case True
    then show ?thesis
      by (auto simp: w writes_of_def run_append LocalCache_set_def update_conv' intro!: exI[of _ t1] exI[of _ e1])
  next
    case False
    with snoc.prems w have "(t, k, e) \<in> set ws" by auto
    from snoc.IH [OF this] obtain t' e' where
      "(t', k, e') \<in> set ws" "map_of (cache (run D (writes_of ws) st)) k = Some (cacheEntry D t' e')"
      by (auto simp: writes_of_def)
    with False show ?thesis
      by (auto simp: w writes_of_def run_append LocalCache_set_def update_conv' intro!: exI[of _ t'] exI[of _ e'])
  qed
qed

lemma updateFailure_present:
  "map_of (cache st) key = Some entry \<Longrightarrow>
   cache (updateFailure key st) = AList.update key (entry\<lparr>failureCount := failureCount entry + 1\<rparr>) (cache st)"
  by (simp add: updateFailure_def saveCache_def)

lemma updateSuccess_present:
  "map_of (cache st) key = Some entry \<Longrightarrow>
   cache (updateSuccess key st) = AList.update key (entry\<lparr>successCount := successCount entry + 1\<rparr>) (cache st)"
  by (simp add: updateSuccess_def saveCache_def)

subsection \<open>Three roundings and \<^verbatim>\<open>Math.round\<close>\<close>

lemma fl_step:
  assumes "rounds_like_binary64 fl" "1 / 10 ^ 15 \<le> x" "x \<le> 10 ^ 15"
  shows "x * (1 - 1 / 2 ^ 53) \<le> fl x" "fl x \<le> x * (1 + 1 / 2 ^ 53)"
proof -
  from assms have "\<bar>fl x - x\<bar> \<le> x / 2 ^ 53"
    unfolding rounds_like_binary64_def by blast
  then have e: "fl x - x \<le> x / 2 ^ 53" "x - fl x \<le> x / 2 ^ 53"
    by linarith+
  have lo: "x * (1 - 1 / 2 ^ 53) = x - x / 2 ^ 53"
    by (simp add: right_diff_distrib)
  have hi: "x * (1 + 1 / 2 ^ 53) = x + x / 2 ^ 53"
    by (simp add: distrib_left)
  show "x * (1 - 1 / 2 ^ 53) \<le> fl x"
    unfolding lo using e(2) by linarith
  show "fl x \<le> x * (1 + 1 / 2 ^ 53)"
    unfolding hi using e(1) by linarith
qed

lemma three_roundings:
  assumes fl: "rounds_like_binary64 fl"
    and q: "1 / 10 ^ 11 \<le> q" "q \<le> 1"
  shows "\<bar>fl (fl (fl q * 100) * 100) - 10000 * q\<bar> \<le> 40000 / 2 ^ 53"
proof -
  define u :: real where "u = 1 / 2 ^ 53"
  have u: "0 < u" "u \<le> 1 / 1000" by (simp_all add: u_def)
  define x1 where "x1 = fl q"
  define x2 where "x2 = fl (x1 * 100)"
  define x3 where "x3 = fl (x2 * 100)"
  have q15: "1 / 10 ^ 15 \<le> q" "q \<le> 10 ^ 15" using q by simp_all
  have x1: "q * (1 - u) \<le> x1" "x1 \<le> q * (1 + u)"
    using fl_step [OF fl q15] by (simp_all add: x1_def u_def)
  have x1r: "1 / 10 ^ 15 \<le> x1 * 100" "x1 * 100 \<le> 10 ^ 15" and x1le: "x1 \<le> 2"
  proof -
    have "q * (1 - u) \<ge> (1 / 10 ^ 11) * (1 - u)" using q u by (intro mult_right_mono) simp_all
    moreover have "(1 / 10 ^ 11) * (1 - u) \<ge> (1 / 10 ^ 11) * (1 / 2)" using u by (intro mult_left_mono) simp_all
    ultimately have "x1 \<ge> (1 / 10 ^ 11) * (1 / 2)" using x1 by linarith
    then show "1 / 10 ^ 15 \<le> x1 * 100" by simp
    have "q * (1 + u) \<le> 1 * (1 + u)" using q u by (intro mult_right_mono) simp_all
    then have "q * (1 + u) \<le> 1 + u" by simp
    then show "x1 \<le> 2" using x1(2) u by linarith
    then show "x1 * 100 \<le> 10 ^ 15" by simp
  qed
  have x2: "x1 * 100 * (1 - u) \<le> x2" "x2 \<le> x1 * 100 * (1 + u)"
    using fl_step [OF fl x1r] by (simp_all add: x2_def u_def)
  have x1pos: "0 \<le> x1" using x1r by simp
  have x2r: "1 / 10 ^ 15 \<le> x2 * 100" "x2 * 100 \<le> 10 ^ 15"
  proof -
    have "x1 * 100 * (1 - u) \<ge> x1 * 100 * (1 / 2)" using u x1pos by (intro mult_left_mono) simp_all
    then have "x2 \<ge> x1 * 50" using x2 by linarith
    then show "1 / 10 ^ 15 \<le> x2 * 100" using x1r by simp
    have "x1 * 100 * (1 + u) \<le> x1 * 100 * 2" using u x1pos by (intro mult_left_mono) simp_all
    then have "x2 \<le> x1 * 200" using x2 by linarith
    then show "x2 * 100 \<le> 10 ^ 15" using x1le by simp
  qed
  have x3: "x2 * 100 * (1 - u) \<le> x3" "x3 \<le> x2 * 100 * (1 + u)"
    using fl_step [OF fl x2r] by (simp_all add: x3_def u_def)
  have x2pos: "0 \<le> x2" using x2r by simp
  have qpos: "0 \<le> q" using q by simp
  have up2: "x2 \<le> q * 100 * ((1 + u) * (1 + u))"
  proof -
    have "x1 * 100 * (1 + u) \<le> q * (1 + u) * 100 * (1 + u)"
      using x1 u by (intro mult_right_mono) simp_all
    then show ?thesis using x2 by (simp add: algebra_simps)
  qed
  have up3: "x3 \<le> q * 10000 * ((1 + u) * (1 + u) * (1 + u))"
  proof -
    have "x2 * 100 * (1 + u) \<le> q * 100 * ((1 + u) * (1 + u)) * 100 * (1 + u)"
      using up2 u by (intro mult_right_mono) simp_all
    then show ?thesis using x3 by (simp add: algebra_simps)
  qed
  have lo2: "q * 100 * ((1 - u) * (1 - u)) \<le> x2"
  proof -
    have "q * (1 - u) * 100 * (1 - u) \<le> x1 * 100 * (1 - u)"
      using x1 u by (intro mult_right_mono) simp_all
    then show ?thesis using x2 by (simp add: algebra_simps)
  qed
  have lo3: "q * 10000 * ((1 - u) * (1 - u) * (1 - u)) \<le> x3"
  proof -
    have "q * 100 * ((1 - u) * (1 - u)) * 100 * (1 - u) \<le> x2 * 100 * (1 - u)"
      using lo2 u by (intro mult_right_mono) simp_all
    then show ?thesis using x3 by (simp add: algebra_simps)
  qed
  have uu: "u * u \<le> u * (1 / 1000)" using u by (intro mult_left_mono) simp_all
  have uuu: "u * u * u \<le> u * u * (1 / 1000)" using u by (intro mult_left_mono) simp_all
  have uu0: "0 \<le> u * u" "0 \<le> u * u * u" using u by simp_all
  have cube_up: "(1 + u) * (1 + u) * (1 + u) \<le> 1 + 4 * u"
  proof -
    have eq: "(1 + u) * (1 + u) * (1 + u) = 1 + 3 * u + 3 * (u * u) + u * u * u"
      by (simp add: algebra_simps)
    show ?thesis unfolding eq using uu uuu u by linarith
  qed
  have cube_lo: "1 - 4 * u \<le> (1 - u) * (1 - u) * (1 - u)"
  proof -
    have eq: "(1 - u) * (1 - u) * (1 - u) = 1 - 3 * u + 3 * (u * u) - u * u * u"
      by (simp add: algebra_simps)
    show ?thesis unfolding eq using uu uuu uu0 u by linarith
  qed
  have "x3 \<le> q * 10000 * (1 + 4 * u)"
    using up3 mult_left_mono [OF cube_up, of "q * 10000"] qpos by simp
  moreover have "q * 10000 * (1 - 4 * u) \<le> x3"
    using lo3 mult_left_mono [OF cube_lo, of "q * 10000"] qpos by simp
  moreover have "q * 10000 * (4 * u) \<le> 1 * 10000 * (4 * u)"
    using q u by (intro mult_right_mono) simp_all
  ultimately have "\<bar>x3 - 10000 * q\<bar> \<le> 40000 * u"
    by (simp add: algebra_simps abs_le_iff)
  then show ?thesis by (simp add: x3_def x2_def x1_def u_def)
qed

lemma nearest_hundredth:
  fixes h t :: nat
  assumes t: "0 < t" "t \<le> 10 ^ 11" and h: "h \<le> t"
    and x: "\<bar>x - 10000 * (real h / real t)\<bar> \<le> 40000 / 2 ^ 53"
  shows "\<bar>of_int \<lfloor>x + 1 / 2\<rfloor> - 10000 * (real h / real t)\<bar> \<le> (1 / 2 :: real)"
proof -
  define r where "r = \<lfloor>x + 1 / 2\<rfloor>"
  define E where "E = 10000 * (real h / real t)"
  have T: "0 < real t" "real t \<le> 10 ^ 11" using t by simp_all
  have TE: "real t * E = 10000 * real h" using t by (simp add: E_def)
  have r1: "of_int r \<le> x + 1 / 2" and r2: "x + 1 / 2 < of_int r + 1"
    unfolding r_def by linarith+
  have d: "2 * real t * (40000 / 2 ^ 53) < 1"
  proof -
    have "2 * real t * (40000 / 2 ^ 53) \<le> 2 * 10 ^ 11 * (40000 / 2 ^ 53)"
      using T by (intro mult_right_mono mult_left_mono) simp_all
    also have "\<dots> < 1" by simp
    finally show ?thesis .
  qed
  have xs: "x \<le> E + 40000 / 2 ^ 53" "E - 40000 / 2 ^ 53 \<le> x"
    using x unfolding E_def by linarith+
  have upper: "of_int r \<le> E + 1 / 2"
  proof -
    have "2 * real t * of_int r \<le> 2 * real t * (E + 40000 / 2 ^ 53 + 1 / 2)"
      using r1 xs T by (intro mult_left_mono) simp_all
    also have "\<dots> = 20000 * real h + 2 * real t * (40000 / 2 ^ 53) + real t"
      using TE by (simp add: algebra_simps)
    also have "\<dots> < 20000 * real h + real t + 1" using d by simp
    finally have "real_of_int (2 * int t * r) < real_of_int (20000 * int h + int t + 1)"
      by simp
    then have "2 * int t * r < 20000 * int h + int t + 1" by (simp only: of_int_less_iff)
    then have "2 * int t * r \<le> 20000 * int h + int t" by simp
    then have "real_of_int (2 * int t * r) \<le> real_of_int (20000 * int h + int t)"
      by (simp only: of_int_le_iff)
    then have "2 * real t * of_int r \<le> 2 * real t * E + real t"
      using TE by simp
    then have "2 * real t * of_int r \<le> 2 * real t * (E + 1 / 2)" by (simp add: algebra_simps)
    then show ?thesis using T by (simp only: mult_le_cancel_left_pos) 
  qed
  have lower: "E - 1 / 2 \<le> of_int r"
  proof -
    have "2 * real t * (E - 40000 / 2 ^ 53 + 1 / 2) \<le> 2 * real t * (x + 1 / 2)"
      using xs T by (intro mult_left_mono) simp_all
    also have "\<dots> < 2 * real t * (of_int r + 1)"
      using r2 T by (intro mult_strict_left_mono) simp_all
    finally have "20000 * real h - 2 * real t * (40000 / 2 ^ 53) + real t < 2 * real t * of_int r + 2 * real t"
      using TE by (simp add: algebra_simps)
    then have "20000 * real h - 1 - real t < 2 * real t * of_int r" using d by simp
    then have "real_of_int (20000 * int h - 1 - int t) < real_of_int (2 * int t * r)"
      by simp
    then have "20000 * int h - 1 - int t < 2 * int t * r" by (simp only: of_int_less_iff)
    then have "20000 * int h - int t \<le> 2 * int t * r" by simp
    then have "real_of_int (20000 * int h - int t) \<le> real_of_int (2 * int t * r)"
      by (simp only: of_int_le_iff)
    then have "2 * real t * E - real t \<le> 2 * real t * of_int r"
      using TE by simp
    then have "2 * real t * (E - 1 / 2) \<le> 2 * real t * of_int r" by (simp add: algebra_simps)
    then show ?thesis using T by (simp only: mult_le_cancel_left_pos)
  qed
  from upper lower show ?thesis unfolding r_def E_def by linarith
qed


subsection \<open>The binary64 rounding has the assumed accuracy\<close>

lemma round_half_even_near: "\<bar>of_int (round_half_even y) - y\<bar> \<le> 1 / 2"
proof -
  have "of_int \<lfloor>y\<rfloor> \<le> y" "y < of_int \<lfloor>y\<rfloor> + 1" by linarith+
  then show ?thesis
    by (auto simp: round_half_even_def Let_def)
qed

lemma scale_down_range:
  assumes "0 < x" "0 < u" "x / u < 2 ^ 53" "2 ^ 52 \<le> x / u * 2 ^ n"
  shows "0 < scale_down n x u \<and> 2 ^ 52 \<le> x / scale_down n x u \<and> x / scale_down n x u < 2 ^ 53"
  using assms
proof (induction n arbitrary: u)
  case 0
  then show ?case by simp
next
  case (Suc n)
  show ?case
  proof (cases "x / u < 2 ^ 52")
    case True
    have a: "0 < u / 2" using Suc.prems(2) by simp
    have e: "x / (u / 2) = 2 * (x / u)" by simp
    have "x / u < 4503599627370496" using True by simp
    then have "2 * (x / u) < 9007199254740992" by linarith
    then have "2 * (x / u) < 2 ^ 53" by simp
    then have b: "x / (u / 2) < 2 ^ 53" by (simp only: e)
    have "2 * (x / u) * 2 ^ n = x / u * 2 ^ Suc n" by simp
    then have c: "2 ^ 52 \<le> x / (u / 2) * 2 ^ n" using Suc.prems(4) by (simp only: e)
    from Suc.IH [OF Suc.prems(1) a b c] True show ?thesis by simp
  next
    case False
    with Suc.prems show ?thesis by simp
  qed
qed

lemma ulp_range:
  assumes "1 / 10 ^ 15 \<le> x" "x \<le> 10 ^ 15"
  shows "0 < ulp x \<and> 2 ^ 52 \<le> x / ulp x \<and> x / ulp x < 2 ^ 53"
proof -
  have pos: "0 < x" using assms(1) by (rule less_le_trans [rotated]) simp
  have small: "x < 2 ^ 52" using assms(2) by (rule le_less_trans) simp
  have "(2 :: real) ^ 52 \<le> 1 / 10 ^ 15 * 2 ^ 1126" by simp
  also have "\<dots> \<le> x * 2 ^ 1126" using assms(1) by (intro mult_right_mono) simp_all
  finally have big: "2 ^ 52 \<le> x / 1 * 2 ^ 1126" by simp
  have "x / 1 < 2 ^ 53" using small by simp
  from scale_down_range [OF pos _ this big] small show ?thesis
    by (simp add: ulp_def)
qed

lemma binary64_accuracy: "rounds_like_binary64 binary64"
proof -
  have "\<bar>binary64 x - x\<bar> \<le> x / 2 ^ 53" if x: "1 / 10 ^ 15 \<le> x" "x \<le> 10 ^ 15" for x
  proof -
    define u where "u = ulp x"
    define m where "m = round_half_even (x / u)"
    have pos: "0 < x" using x(1) by (rule less_le_trans [rotated]) simp
    have u: "0 < u" "2 ^ 52 \<le> x / u" using ulp_range [OF x] by (simp_all add: u_def)
    have val: "binary64 x = of_int m * u"
      using pos by (simp add: binary64_def u_def m_def)
    have "\<bar>of_int m - x / u\<bar> \<le> 1 / 2" unfolding m_def by (rule round_half_even_near)
    then have "\<bar>of_int m - x / u\<bar> * u \<le> 1 / 2 * u"
      using u(1) by (intro mult_right_mono) simp_all
    moreover have "\<bar>of_int m - x / u\<bar> * u = \<bar>of_int m * u - x\<bar>"
    proof -
      have "\<bar>of_int m - x / u\<bar> * u = \<bar>(of_int m - x / u) * u\<bar>"
        using u(1) by (simp add: abs_mult)
      also have "(of_int m - x / u) * u = of_int m * u - x"
        using u(1) by (simp add: left_diff_distrib)
      finally show ?thesis .
    qed
    ultimately have err: "\<bar>of_int m * u - x\<bar> \<le> u / 2" by simp
    have "2 ^ 52 * u \<le> x / u * u" using u by (intro mult_right_mono) simp_all
    then have "2 ^ 52 * u \<le> x" using u(1) by simp
    then have "u / 2 \<le> x / 2 ^ 53" by simp
    with err show ?thesis unfolding val by linarith
  qed
  then show ?thesis by (simp add: rounds_like_binary64_def binary64_def)
qed

lemma scale_down_numeral:
  "scale_down (numeral k) x u = (if x / u < 2 ^ 52 then scale_down (pred_numeral k) x (u / 2) else u)"
  by (simp add: numeral_eq_Suc)

lemma binary64_23_160:
  "binary64 (23 / 160) = 5179139571476070 / 2 ^ 55"
  "binary64 (5179139571476070 / 2 ^ 55 * 100) = 8092405580431359 / 2 ^ 49"
  "binary64 (8092405580431359 / 2 ^ 49 * 100) = 6322191859711999 / 2 ^ 42"
  "binary64 (1437 / 100) = 8089590830664253 / 2 ^ 49"
  "binary64 (1438 / 100) = 8095220330198467 / 2 ^ 49"
  by (simp_all add: binary64_def ulp_def scale_down_numeral round_half_even_def Let_def)

section \<open>Properties of the store\<close>

text \<open>
  C10. A call of \<^verbatim>\<open>get\<close> adds one to \<open>hits\<close> when the key is present and one to \<open>misses\<close>
  when it is absent, leaves the other counter, the entries and the file system as they
  were, and returns the entry. So after any run of operations on a newly constructed store
  the two totals that \<^verbatim>\<open>getStatistics\<close> reports add up to the number of \<^verbatim>\<open>get\<close> calls of
  the run.
\<close>

theorem get_counts_every_request:
  "(map_of (cache st) key \<noteq> None \<longrightarrow>
      hits (snd (LocalCache_get key st)) = hits st + 1 \<and>
      misses (snd (LocalCache_get key st)) = misses st) \<and>
   (map_of (cache st) key = None \<longrightarrow>
      hits (snd (LocalCache_get key st)) = hits st \<and>
      misses (snd (LocalCache_get key st)) = misses st + 1) \<and>
   fst (LocalCache_get key st) = map_of (cache st) key \<and>
   cache (snd (LocalCache_get key st)) = cache st \<and>
   fs (snd (LocalCache_get key st)) = fs st \<and>
   totalHits (getStatistics fl D (run D ops (LocalCache_new D now path fsys))) +
   totalMisses (getStatistics fl D (run D ops (LocalCache_new D now path fsys))) =
     length (filter isGet ops)"
proof -
  have single: "fst (LocalCache_get key st) = map_of (cache st) key"
    "cache (snd (LocalCache_get key st)) = cache st"
    "fs (snd (LocalCache_get key st)) = fs st"
    by (simp_all add: LocalCache_get_def split: option.splits)
  have hit: "map_of (cache st) key \<noteq> None \<longrightarrow>
      hits (snd (LocalCache_get key st)) = hits st + 1 \<and>
      misses (snd (LocalCache_get key st)) = misses st"
    by (auto simp: LocalCache_get_def)
  have miss: "map_of (cache st) key = None \<longrightarrow>
      hits (snd (LocalCache_get key st)) = hits st \<and>
      misses (snd (LocalCache_get key st)) = misses st + 1"
    by (simp add: LocalCache_get_def)
  have total: "totalHits (getStatistics fl D (run D ops (LocalCache_new D now path fsys))) +
   totalMisses (getStatistics fl D (run D ops (LocalCache_new D now path fsys))) =
     length (filter isGet ops)"
    using run_requests [of D ops "LocalCache_new D now path fsys"]
    by (simp add: getStatistics_def Let_def)
  from single hit miss total show ?thesis by blast
qed

theorem get_counts_every_request_witness:
  "map_of (cache example_store) ''#old-id'' \<noteq> None \<and>
   hits (snd (LocalCache_get ''#old-id'' example_store)) = 1 \<and>
   misses (snd (LocalCache_get ''#old-id'' example_store)) = 0 \<and>
   map_of (cache example_store) ''#missing'' = None \<and>
   hits (snd (LocalCache_get ''#missing'' example_store)) = 0 \<and>
   misses (snd (LocalCache_get ''#missing'' example_store)) = 1 \<and>
   totalHits (getStatistics (\<lambda>x. x) example_date
      (run example_date [Get ''#old-id'', UpdateSuccess ''#old-id'', Get ''#missing'', Get ''#old-id'']
         (LocalCache_new example_date 1767355200000 ''cache/locator_cache.json'' example_disk))) +
   totalMisses (getStatistics (\<lambda>x. x) example_date
      (run example_date [Get ''#old-id'', UpdateSuccess ''#old-id'', Get ''#missing'', Get ''#old-id'']
         (LocalCache_new example_date 1767355200000 ''cache/locator_cache.json'' example_disk))) = 3"
  using get_counts_every_request [where st = example_store and key = "''#old-id''" and fl = "\<lambda>x. x"
      and D = example_date and now = 1767355200000 and path = "''cache/locator_cache.json''"
      and fsys = example_disk
      and ops = "[Get ''#old-id'', UpdateSuccess ''#old-id'', Get ''#missing'', Get ''#old-id'']"]
    get_counts_every_request [where st = example_store and key = "''#missing''"]
  by (simp add: example_store_def)


text \<open>
  C8. \<^verbatim>\<open>set(key, entry)\<close> leaves under \<open>key\<close> the entry made of the argument, the ISO string
  of the current time and two zero counters, whatever was stored under \<open>key\<close> before; every
  other key keeps its entry and a key still has one entry. When the write succeeds, the
  file at the cache path is, by the time \<^verbatim>\<open>set\<close> returns, a JSON object that has exactly
  the keys of the map and under each key an object whose six properties are those of that
  key's entry: the whole map, the new entry included. A write that throws is caught and leaves
  the file system as it was.
\<close>

theorem set_overwrites_and_persists:
  "map_of (cache (LocalCache_set D now key entry st)) key =
     Some \<lparr> originalLocator = originalLocator entry,
            generatedLocator = generatedLocator entry,
            strategy = CacheEntryInput.strategy entry,
            timestamp = toISOString D now,
            successCount = 0,
            failureCount = 0 \<rparr> \<and>
   (\<forall>k. k \<noteq> key \<longrightarrow> map_of (cache (LocalCache_set D now key entry st)) k = map_of (cache st) k) \<and>
   (distinct (map fst (cache st)) \<longrightarrow> distinct (map fst (cache (LocalCache_set D now key entry st)))) \<and>
   (write_ok (fs st) \<longrightarrow>
      (\<exists>ps. files (fs (LocalCache_set D now key entry st)) (LocalCache.cachePath st) = Document (JObj ps) \<and>
         (\<forall>k. case map_of (cache (LocalCache_set D now key entry st)) k of
                None \<Rightarrow> map_of ps k = None
              | Some e \<Rightarrow>
                  (\<exists>props. map_of ps k = Some (JObj props) \<and>
                     map_of props ''originalLocator'' = Some (JStr (originalLocator e)) \<and>
                     map_of props ''generatedLocator'' = Some (JStr (generatedLocator e)) \<and>
                     map_of props ''strategy'' = Some (JStr (CacheEntryInput.strategy e)) \<and>
                     map_of props ''timestamp'' = Some (JStr (timestamp e)) \<and>
                     map_of props ''successCount'' = Some (JNum (successCount e)) \<and>
                     map_of props ''failureCount'' = Some (JNum (failureCount e)))))) \<and>
   (\<not> write_ok (fs st) \<longrightarrow> fs (LocalCache_set D now key entry st) = fs st)"
proof -
  let ?st' = "LocalCache_set D now key entry st"
  let ?ps = "map (\<lambda>(k, e). (k, entryToJson e)) (cache ?st')"
  have one: "map_of (cache ?st') key =
     Some \<lparr> originalLocator = originalLocator entry,
            generatedLocator = generatedLocator entry,
            strategy = CacheEntryInput.strategy entry,
            timestamp = toISOString D now,
            successCount = 0,
            failureCount = 0 \<rparr>"
    by (simp add: LocalCache_set_def cacheEntry_def update_conv')
  have others: "\<forall>k. k \<noteq> key \<longrightarrow> map_of (cache ?st') k = map_of (cache st) k"
    by (simp add: LocalCache_set_def update_conv')
  have dist: "distinct (map fst (cache st)) \<longrightarrow> distinct (map fst (cache ?st'))"
    by (simp add: LocalCache_set_def distinct_update)
  have look: "\<forall>k. case map_of (cache ?st') k of
                None \<Rightarrow> map_of ?ps k = None
              | Some e \<Rightarrow>
                  (\<exists>props. map_of ?ps k = Some (JObj props) \<and>
                     map_of props ''originalLocator'' = Some (JStr (originalLocator e)) \<and>
                     map_of props ''generatedLocator'' = Some (JStr (generatedLocator e)) \<and>
                     map_of props ''strategy'' = Some (JStr (CacheEntryInput.strategy e)) \<and>
                     map_of props ''timestamp'' = Some (JStr (timestamp e)) \<and>
                     map_of props ''successCount'' = Some (JNum (successCount e)) \<and>
                     map_of props ''failureCount'' = Some (JNum (failureCount e)))"
    by (simp only: map_of_cacheObject_entries) (simp add: entryToJson_def split: option.splits)
  have written: "write_ok (fs st) \<longrightarrow>
      (\<exists>ps. files (fs ?st') (LocalCache.cachePath st) = Document (JObj ps) \<and>
         (\<forall>k. case map_of (cache ?st') k of
                None \<Rightarrow> map_of ps k = None
              | Some e \<Rightarrow>
                  (\<exists>props. map_of ps k = Some (JObj props) \<and>
                     map_of props ''originalLocator'' = Some (JStr (originalLocator e)) \<and>
                     map_of props ''generatedLocator'' = Some (JStr (generatedLocator e)) \<and>
                     map_of props ''strategy'' = Some (JStr (CacheEntryInput.strategy e)) \<and>
                     map_of props ''timestamp'' = Some (JStr (timestamp e)) \<and>
                     map_of props ''successCount'' = Some (JNum (successCount e)) \<and>
                     map_of props ''failureCount'' = Some (JNum (failureCount e)))))"
  proof
    assume ok: "write_ok (fs st)"
    have "files (fs ?st') (LocalCache.cachePath st) = Document (JObj ?ps)"
      using ok by (simp add: LocalCache_set_def saveCache_def cacheObject_def)
    with look show "\<exists>ps. files (fs ?st') (LocalCache.cachePath st) = Document (JObj ps) \<and>
         (\<forall>k. case map_of (cache ?st') k of
                None \<Rightarrow> map_of ps k = None
              | Some e \<Rightarrow>
                  (\<exists>props. map_of ps k = Some (JObj props) \<and>
                     map_of props ''originalLocator'' = Some (JStr (originalLocator e)) \<and>
                     map_of props ''generatedLocator'' = Some (JStr (generatedLocator e)) \<and>
                     map_of props ''strategy'' = Some (JStr (CacheEntryInput.strategy e)) \<and>
                     map_of props ''timestamp'' = Some (JStr (timestamp e)) \<and>
                     map_of props ''successCount'' = Some (JNum (successCount e)) \<and>
                     map_of props ''failureCount'' = Some (JNum (failureCount e))))"
      by (intro exI [of _ ?ps] conjI)
  qed
  have failed: "\<not> write_ok (fs st) \<longrightarrow> fs ?st' = fs st"
    by (simp add: LocalCache_set_def saveCache_def)
  show ?thesis
    by (rule conjI [OF one conjI [OF others conjI [OF dist conjI [OF written failed]]]])
qed

theorem set_overwrites_and_persists_witness:
  "distinct (map fst (cache example_store)) \<and> write_ok (fs example_store) \<and>
   map_of (cache (LocalCache_set example_date 1767355200000 ''#old-id''
        \<lparr> originalLocator = ''#old-id'', generatedLocator = ''button.submit'', strategy = ''CSS'' \<rparr>
        example_store)) ''#old-id'' =
     Some \<lparr> originalLocator = ''#old-id'', generatedLocator = ''button.submit'', strategy = ''CSS'',
            timestamp = ''2026-01-02T12:00:00.000Z'', successCount = 0, failureCount = 0 \<rparr> \<and>
   (\<exists>ps. files (fs (LocalCache_set example_date 1767355200000 ''#old-id''
        \<lparr> originalLocator = ''#old-id'', generatedLocator = ''button.submit'', strategy = ''CSS'' \<rparr>
        example_store)) ''cache/locator_cache.json'' = Document (JObj ps) \<and>
      map_of ps ''#missing'' = None \<and>
      (\<exists>props. map_of ps ''#old-id'' = Some (JObj props) \<and>
         map_of props ''originalLocator'' = Some (JStr ''#old-id'') \<and>
         map_of props ''generatedLocator'' = Some (JStr ''button.submit'') \<and>
         map_of props ''strategy'' = Some (JStr ''CSS'') \<and>
         map_of props ''timestamp'' = Some (JStr ''2026-01-02T12:00:00.000Z'') \<and>
         map_of props ''successCount'' = Some (JNum 0) \<and>
         map_of props ''failureCount'' = Some (JNum 0))) \<and>
   files (fs (LocalCache_set example_date 1767355200000 ''#old-id''
        \<lparr> originalLocator = ''#old-id'', generatedLocator = ''button.submit'', strategy = ''CSS'' \<rparr>
        example_store)) ''cache/locator_cache.json'' =
     Document (JObj [(''#old-id'',
       JObj [(''originalLocator'', JStr ''#old-id''),
             (''generatedLocator'', JStr ''button.submit''),
             (''strategy'', JStr ''CSS''),
             (''timestamp'', JStr ''2026-01-02T12:00:00.000Z''),
             (''successCount'', JNum 0),
             (''failureCount'', JNum 0)])]) \<and>
   \<not> write_ok (fs (example_store\<lparr>fs := (fs example_store)\<lparr>write_ok := False\<rparr>\<rparr>)) \<and>
   files (fs (LocalCache_set example_date 1767355200000 ''#old-id''
        \<lparr> originalLocator = ''#old-id'', generatedLocator = ''button.submit'', strategy = ''CSS'' \<rparr>
        (example_store\<lparr>fs := (fs example_store)\<lparr>write_ok := False\<rparr>\<rparr>))) ''cache/locator_cache.json'' =
     Document (JObj [(''#old-id'',
       JObj [(''originalLocator'', JStr ''#old-id''),
             (''generatedLocator'', JStr ''[data-testid=submit]''),
             (''strategy'', JStr ''CSS''),
             (''timestamp'', JStr ''2026-01-01T00:00:00.000Z''),
             (''successCount'', JNum 0),
             (''failureCount'', JNum 0)])])"
proof -
  let ?e = "\<lparr> originalLocator = ''#old-id'', generatedLocator = ''button.submit'', strategy = ''CSS'' \<rparr>"
  let ?new = "\<lparr> originalLocator = ''#old-id'', generatedLocator = ''button.submit'', strategy = ''CSS'',
                timestamp = ''2026-01-02T12:00:00.000Z'', successCount = 0, failureCount = 0 \<rparr>"
  let ?bad = "example_store\<lparr>fs := (fs example_store)\<lparr>write_ok := False\<rparr>\<rparr>"
  let ?st' = "LocalCache_set example_date 1767355200000 ''#old-id'' ?e example_store"
  note T = set_overwrites_and_persists [of example_date 1767355200000 "''#old-id''" ?e example_store]
  note U = set_overwrites_and_persists [of example_date 1767355200000 "''#old-id''" ?e ?bad]
  have a: "distinct (map fst (cache example_store))" by (simp add: example_store_def)
  have b: "write_ok (fs example_store)" by (simp add: example_store_def example_disk_def)
  have nb: "\<not> write_ok (fs ?bad)" by simp
  have iso: "toISOString example_date 1767355200000 = ''2026-01-02T12:00:00.000Z''"
    by (simp add: example_date_def)
  have path: "LocalCache.cachePath example_store = ''cache/locator_cache.json''"
    by (simp add: example_store_def)
  have mem: "cache ?st' = [(''#old-id'', ?new)]"
    by (simp add: LocalCache_set_def cacheEntry_def example_store_def iso)
  have c: "map_of (cache ?st') ''#old-id'' = Some ?new"
    using T [THEN conjunct1] by (simp only: iso CacheEntryInput.simps)
  have "\<exists>ps. files (fs ?st') (LocalCache.cachePath example_store) = Document (JObj ps) \<and>
         (\<forall>k. case map_of (cache ?st') k of
                None \<Rightarrow> map_of ps k = None
              | Some e \<Rightarrow>
                  (\<exists>props. map_of ps k = Some (JObj props) \<and>
                     map_of props ''originalLocator'' = Some (JStr (originalLocator e)) \<and>
                     map_of props ''generatedLocator'' = Some (JStr (generatedLocator e)) \<and>
                     map_of props ''strategy'' = Some (JStr (CacheEntryInput.strategy e)) \<and>
                     map_of props ''timestamp'' = Some (JStr (timestamp e)) \<and>
                     map_of props ''successCount'' = Some (JNum (successCount e)) \<and>
                     map_of props ''failureCount'' = Some (JNum (failureCount e))))"
    by (rule T [THEN conjunct2, THEN conjunct2, THEN conjunct2, THEN conjunct1, THEN mp, OF b])
  then obtain ps where ps: "files (fs ?st') (LocalCache.cachePath example_store) = Document (JObj ps)"
      "\<forall>k. case map_of (cache ?st') k of
                None \<Rightarrow> map_of ps k = None
              | Some e \<Rightarrow>
                  (\<exists>props. map_of ps k = Some (JObj props) \<and>
                     map_of props ''originalLocator'' = Some (JStr (originalLocator e)) \<and>
                     map_of props ''generatedLocator'' = Some (JStr (generatedLocator e)) \<and>
                     map_of props ''strategy'' = Some (JStr (CacheEntryInput.strategy e)) \<and>
                     map_of props ''timestamp'' = Some (JStr (timestamp e)) \<and>
                     map_of props ''successCount'' = Some (JNum (successCount e)) \<and>
                     map_of props ''failureCount'' = Some (JNum (failureCount e)))"
    by (elim exE conjE)
  have p1: "files (fs ?st') ''cache/locator_cache.json'' = Document (JObj ps)"
    using ps(1) by (simp only: path)
  have p2: "map_of ps ''#missing'' = None"
    using ps(2) [THEN spec, of "''#missing''"] by (simp add: mem)
  have p3: "\<exists>props. map_of ps ''#old-id'' = Some (JObj props) \<and>
         map_of props ''originalLocator'' = Some (JStr ''#old-id'') \<and>
         map_of props ''generatedLocator'' = Some (JStr ''button.submit'') \<and>
         map_of props ''strategy'' = Some (JStr ''CSS'') \<and>
         map_of props ''timestamp'' = Some (JStr ''2026-01-02T12:00:00.000Z'') \<and>
         map_of props ''successCount'' = Some (JNum 0) \<and>
         map_of props ''failureCount'' = Some (JNum 0)"
    using ps(2) [THEN spec, of "''#old-id''"] by (simp add: mem)
  have d: "\<exists>ps. files (fs ?st') ''cache/locator_cache.json'' = Document (JObj ps) \<and>
      map_of ps ''#missing'' = None \<and>
      (\<exists>props. map_of ps ''#old-id'' = Some (JObj props) \<and>
         map_of props ''originalLocator'' = Some (JStr ''#old-id'') \<and>
         map_of props ''generatedLocator'' = Some (JStr ''button.submit'') \<and>
         map_of props ''strategy'' = Some (JStr ''CSS'') \<and>
         map_of props ''timestamp'' = Some (JStr ''2026-01-02T12:00:00.000Z'') \<and>
         map_of props ''successCount'' = Some (JNum 0) \<and>
         map_of props ''failureCount'' = Some (JNum 0))"
    by (rule exI [of _ ps]) (rule conjI [OF p1 conjI [OF p2 p3]])
  have d': "files (fs ?st') ''cache/locator_cache.json'' =
     Document (JObj [(''#old-id'',
       JObj [(''originalLocator'', JStr ''#old-id''),
             (''generatedLocator'', JStr ''button.submit''),
             (''strategy'', JStr ''CSS''),
             (''timestamp'', JStr ''2026-01-02T12:00:00.000Z''),
             (''successCount'', JNum 0),
             (''failureCount'', JNum 0)])])"
    by (simp add: LocalCache_set_def saveCache_def cacheObject_def entryToJson_def cacheEntry_def
        example_store_def example_disk_def iso)
  have "fs (LocalCache_set example_date 1767355200000 ''#old-id'' ?e ?bad) = fs ?bad"
    by (rule U [THEN conjunct2, THEN conjunct2, THEN conjunct2, THEN conjunct2, THEN mp, OF nb])
  then have e: "files (fs (LocalCache_set example_date 1767355200000 ''#old-id'' ?e ?bad))
        ''cache/locator_cache.json'' =
     Document (JObj [(''#old-id'',
       JObj [(''originalLocator'', JStr ''#old-id''),
             (''generatedLocator'', JStr ''[data-testid=submit]''),
             (''strategy'', JStr ''CSS''),
             (''timestamp'', JStr ''2026-01-01T00:00:00.000Z''),
             (''successCount'', JNum 0),
             (''failureCount'', JNum 0)])])"
    by (simp add: example_store_def example_disk_def cacheObject_def entryToJson_def example_entry_def)
  show ?thesis
    by (rule conjI [OF a conjI [OF b conjI [OF c conjI [OF d conjI [OF d' conjI [OF nb e]]]]]])
qed

text \<open>
  C6. Take a store whose map has one entry per key and whose writes succeed, and write at
  least one entry through \<^verbatim>\<open>set\<close>. Every key written then holds the entry of one of its
  writes: that argument, the ISO string of that write's time, both counters 0. A store
  constructed later on the same path holds exactly the entries of the first store that are
  not older than two days at that moment, each unchanged. And for any document that is an
  object, the store constructed from it holds, under each key, the entry of the document
  if that passes \<^verbatim>\<open>isValidCacheEntry\<close> and is not older than two days, and nothing
  otherwise: an entry that fails the check is passed over and the others are loaded.
\<close>

theorem set_reload_roundtrip:
  assumes "distinct (map fst (cache st))" and "write_ok (fs st)" and "ws \<noteq> []"
  shows "(\<forall>(t, k, e) \<in> set ws. \<exists>t' e'. (t', k, e') \<in> set ws \<and>
            map_of (cache (run D (writes_of ws) st)) k = Some (cacheEntry D t' e')) \<and>
         (\<forall>k. map_of (cache (LocalCache_new D later (LocalCache.cachePath st) (fs (run D (writes_of ws) st)))) k =
            (case map_of (cache (run D (writes_of ws) st)) k of
               Some e \<Rightarrow> if expired D later 2 e then None else Some e
             | None \<Rightarrow> None)) \<and>
         (\<forall>ps k. distinct (map fst ps) \<longrightarrow>
            map_of (cache (LocalCache_new D later p (fsys\<lparr>files := (files fsys)(p := Document (JObj ps))\<rparr>))) k =
              (case map_of ps k of
                 Some j \<Rightarrow> if isValidCacheEntry j \<and> \<not> expired D later 2 (asCacheEntry j)
                           then Some (asCacheEntry j) else None
               | None \<Rightarrow> None))"
proof -
  let ?st' = "run D (writes_of ws) st"
  have written: "\<forall>(t, k, e) \<in> set ws. \<exists>t' e'. (t', k, e') \<in> set ws \<and>
            map_of (cache ?st') k = Some (cacheEntry D t' e')"
    using written_entries by blast
  have d: "distinct (map fst (cache ?st'))"
    using assms(1) by (rule run_invariants)
  have sync: "files (fs ?st') (LocalCache.cachePath ?st') = Document (cacheObject (cache ?st'))"
    using assms(2,3) by (rule writes_in_sync)
  have reload: "\<forall>k. map_of (cache (LocalCache_new D later (LocalCache.cachePath st) (fs ?st'))) k =
            (case map_of (cache ?st') k of
               Some e \<Rightarrow> if expired D later 2 e then None else Some e
             | None \<Rightarrow> None)"
    using map_of_reloaded [OF d sync, of D later] by (simp add: run_invariants)
  have skip: "\<forall>ps k. distinct (map fst ps) \<longrightarrow>
            map_of (cache (LocalCache_new D later p (fsys\<lparr>files := (files fsys)(p := Document (JObj ps))\<rparr>))) k =
              (case map_of ps k of
                 Some j \<Rightarrow> if isValidCacheEntry j \<and> \<not> expired D later 2 (asCacheEntry j)
                           then Some (asCacheEntry j) else None
               | None \<Rightarrow> None)"
    using map_of_loaded_document by blast
  from written reload skip show ?thesis by blast
qed

theorem set_reload_roundtrip_witness:
  "distinct (map fst (cache empty_store)) \<and> write_ok (fs empty_store) \<and>
   [(1767225600000 :: int, ''#old-id'',
       \<lparr> originalLocator = ''#old-id'', generatedLocator = ''[data-testid=submit]'', strategy = ''CSS'' \<rparr>),
    (1767355200000, ''#missing'',
       \<lparr> originalLocator = ''#missing'', generatedLocator = ''button.submit'', strategy = ''CSS'' \<rparr>)] \<noteq> [] \<and>
   map_of (cache (LocalCache_new example_date 1767484800000 (LocalCache.cachePath empty_store)
     (fs (run example_date (writes_of
        [(1767225600000, ''#old-id'',
            \<lparr> originalLocator = ''#old-id'', generatedLocator = ''[data-testid=submit]'', strategy = ''CSS'' \<rparr>),
         (1767355200000, ''#missing'',
            \<lparr> originalLocator = ''#missing'', generatedLocator = ''button.submit'', strategy = ''CSS'' \<rparr>)])
        empty_store)))) ''#missing'' =
     Some \<lparr> originalLocator = ''#missing'', generatedLocator = ''button.submit'', strategy = ''CSS'',
            timestamp = ''2026-01-02T12:00:00.000Z'', successCount = 0, failureCount = 0 \<rparr> \<and>
   map_of (cache (LocalCache_new example_date 1767484800000 (LocalCache.cachePath empty_store)
     (fs (run example_date (writes_of
        [(1767225600000, ''#old-id'',
            \<lparr> originalLocator = ''#old-id'', generatedLocator = ''[data-testid=submit]'', strategy = ''CSS'' \<rparr>),
         (1767355200000, ''#missing'',
            \<lparr> originalLocator = ''#missing'', generatedLocator = ''button.submit'', strategy = ''CSS'' \<rparr>)])
        empty_store)))) ''#old-id'' = None \<and>
   distinct (map fst [(''#broken'', JObj [(''originalLocator'', JNum 5)]), (''#old-id'', entryToJson example_entry)]) \<and>
   map_of (cache (LocalCache_new example_date 1767355200000 ''cache/locator_cache.json''
     (empty_disk\<lparr>files := (files empty_disk)(''cache/locator_cache.json'' :=
        Document (JObj [(''#broken'', JObj [(''originalLocator'', JNum 5)]),
                        (''#old-id'', entryToJson example_entry)]))\<rparr>))) ''#old-id'' = Some example_entry \<and>
   map_of (cache (LocalCache_new example_date 1767355200000 ''cache/locator_cache.json''
     (empty_disk\<lparr>files := (files empty_disk)(''cache/locator_cache.json'' :=
        Document (JObj [(''#broken'', JObj [(''originalLocator'', JNum 5)]),
                        (''#old-id'', entryToJson example_entry)]))\<rparr>))) ''#broken'' = None"
proof -
  let ?ws = "[(1767225600000 :: int, ''#old-id'',
       \<lparr> originalLocator = ''#old-id'', generatedLocator = ''[data-testid=submit]'', strategy = ''CSS'' \<rparr>),
    (1767355200000, ''#missing'',
       \<lparr> originalLocator = ''#missing'', generatedLocator = ''button.submit'', strategy = ''CSS'' \<rparr>)]"
  let ?ps = "[(''#broken'', JObj [(''originalLocator'', JNum 5)]), (''#old-id'', entryToJson example_entry)]"
  have a: "distinct (map fst (cache empty_store))" by (simp add: empty_store_def)
  have b: "write_ok (fs empty_store)" by (simp add: empty_store_def empty_disk_def)
  have c: "?ws \<noteq> []" by simp
  have d: "distinct (map fst ?ps)" by simp
  note T = set_reload_roundtrip [OF a b c, of example_date 1767484800000 "''cache/locator_cache.json''" empty_disk]
  note U = set_reload_roundtrip [OF a b c, of example_date 1767355200000 "''cache/locator_cache.json''" empty_disk]
  have r: "\<And>k. map_of (cache (LocalCache_new example_date 1767484800000 (LocalCache.cachePath empty_store)
        (fs (run example_date (writes_of ?ws) empty_store)))) k =
      (case map_of (cache (run example_date (writes_of ?ws) empty_store)) k of
         Some e \<Rightarrow> if expired example_date 1767484800000 2 e then None else Some e
       | None \<Rightarrow> None)"
    by (rule T [THEN conjunct2, THEN conjunct1, THEN spec])
  have mem: "cache (run example_date (writes_of ?ws) empty_store) =
      [(''#old-id'', cacheEntry example_date 1767225600000
          \<lparr> originalLocator = ''#old-id'', generatedLocator = ''[data-testid=submit]'', strategy = ''CSS'' \<rparr>),
       (''#missing'', cacheEntry example_date 1767355200000
          \<lparr> originalLocator = ''#missing'', generatedLocator = ''button.submit'', strategy = ''CSS'' \<rparr>)]"
    by (simp add: writes_of_def LocalCache_set_def empty_store_def)
  have r1: "map_of (cache (LocalCache_new example_date 1767484800000 (LocalCache.cachePath empty_store)
        (fs (run example_date (writes_of ?ws) empty_store)))) ''#missing'' =
     Some \<lparr> originalLocator = ''#missing'', generatedLocator = ''button.submit'', strategy = ''CSS'',
            timestamp = ''2026-01-02T12:00:00.000Z'', successCount = 0, failureCount = 0 \<rparr>"
    unfolding r mem by (simp add: cacheEntry_def expired_def example_date_def)
  have r2: "map_of (cache (LocalCache_new example_date 1767484800000 (LocalCache.cachePath empty_store)
        (fs (run example_date (writes_of ?ws) empty_store)))) ''#old-id'' = None"
    unfolding r mem by (simp add: cacheEntry_def expired_def example_date_def)
  have s: "\<And>k. map_of (cache (LocalCache_new example_date 1767355200000 ''cache/locator_cache.json''
        (empty_disk\<lparr>files := (files empty_disk)(''cache/locator_cache.json'' := Document (JObj ?ps))\<rparr>))) k =
      (case map_of ?ps k of
         Some j \<Rightarrow> if isValidCacheEntry j \<and> \<not> expired example_date 1767355200000 2 (asCacheEntry j)
                   then Some (asCacheEntry j) else None
       | None \<Rightarrow> None)"
    by (rule U [THEN conjunct2, THEN conjunct2, THEN spec, THEN spec, THEN mp, OF d])
  have s1: "map_of (cache (LocalCache_new example_date 1767355200000 ''cache/locator_cache.json''
        (empty_disk\<lparr>files := (files empty_disk)(''cache/locator_cache.json'' := Document (JObj ?ps))\<rparr>))) ''#old-id'' =
      Some example_entry"
    unfolding s by (simp add: expired_def example_date_def example_entry_def)
  have s2: "map_of (cache (LocalCache_new example_date 1767355200000 ''cache/locator_cache.json''
        (empty_disk\<lparr>files := (files empty_disk)(''cache/locator_cache.json'' := Document (JObj ?ps))\<rparr>))) ''#broken'' =
      None"
    unfolding s by (simp add: isValidCacheEntry_def typeof_string_def)
  show ?thesis
    by (rule conjI [OF a conjI [OF b conjI [OF c conjI [OF r1 conjI [OF r2 conjI [OF d conjI [OF s1 s2]]]]]]])
qed

text \<open>
  C5, as the code has it. Let the rounding of numbers have the accuracy of binary64. In a
  state with at least one and at most \<open>10^11\<close> requests, the hit rate reported by
  \<^verbatim>\<open>getStatistics\<close> is the number for \<open>r / 100\<close>, where \<open>r / 100\<close> is a multiple of one
  hundredth that lies within half a hundredth of \<open>hits / (hits + misses) \<times> 100\<close>: the
  percentage rounded to two decimals, except that a percentage exactly between two
  hundredths may come out as either of them. The totals reported are the two counters. With
  no \<^verbatim>\<open>get\<close> since the store was constructed the hit rate and both totals are 0.
\<close>

theorem hit_rate_is_rounded_percentage:
  assumes "rounds_like_binary64 fl"
  shows "(0 < hits st + misses st \<and> hits st + misses st \<le> 10 ^ 11 \<longrightarrow>
            (\<exists>r :: int. hitRate (getStatistics fl D st) = fl (of_int r / 100) \<and>
               \<bar>of_int r / 100 - real (hits st) / real (hits st + misses st) * 100\<bar> \<le> 1 / 200)) \<and>
         totalHits (getStatistics fl D st) = hits st \<and>
         totalMisses (getStatistics fl D st) = misses st \<and>
         (filter isGet ops = [] \<longrightarrow>
            hitRate (getStatistics fl D (run D ops (LocalCache_new D now path fsys))) = 0 \<and>
            totalHits (getStatistics fl D (run D ops (LocalCache_new D now path fsys))) = 0 \<and>
            totalMisses (getStatistics fl D (run D ops (LocalCache_new D now path fsys))) = 0)"
proof -
  have fl0: "fl 0 = 0" using assms by (simp add: rounds_like_binary64_def)
  have round0: "Math_round 0 = 0" by (simp add: Math_round_def)
  have rate: "\<exists>r :: int. hitRate (getStatistics fl D st) = fl (of_int r / 100) \<and>
               \<bar>of_int r / 100 - real (hits st) / real (hits st + misses st) * 100\<bar> \<le> 1 / 200"
    if t: "0 < hits st + misses st" "hits st + misses st \<le> 10 ^ 11"
  proof (cases "hits st = 0")
    case True
    have "hitRate (getStatistics fl D st) = fl (of_int 0 / 100)"
      using t True by (simp add: getStatistics_def Let_def fl0 round0)
    moreover have "\<bar>of_int 0 / 100 - real (hits st) / real (hits st + misses st) * 100\<bar> \<le> 1 / 200"
      using True by simp
    ultimately show ?thesis by blast
  next
    case False
    define h where "h = hits st"
    define n where "n = hits st + misses st"
    define q where "q = real h / real n"
    define x where "x = fl (fl (fl q * 100) * 100)"
    have n: "0 < n" "n \<le> 10 ^ 11" "h \<le> n" "0 < h"
      using t False by (simp_all add: h_def n_def)
    have rn: "0 < real n" "real n \<le> 10 ^ 11" using n by simp_all
    have "1 \<le> real h" using n by simp
    then have "1 / 10 ^ 11 \<le> real h / real n"
      using rn by (simp add: field_simps)
    then have q1: "1 / 10 ^ 11 \<le> q" by (simp add: q_def)
    have q2: "q \<le> 1" using n by (simp add: q_def)
    have "\<bar>x - 10000 * q\<bar> \<le> 40000 / 2 ^ 53"
      unfolding x_def by (rule three_roundings [OF assms q1 q2])
    then have "\<bar>x - 10000 * (real h / real n)\<bar> \<le> 40000 / 2 ^ 53" by (simp add: q_def)
    from nearest_hundredth [OF n(1) n(2) n(3) this]
    have near: "\<bar>of_int \<lfloor>x + 1 / 2\<rfloor> - 10000 * (real h / real n)\<bar> \<le> (1 / 2 :: real)" .
    have "hitRate (getStatistics fl D st) = fl (of_int \<lfloor>x + 1 / 2\<rfloor> / 100)"
      using t by (simp add: getStatistics_def Let_def Math_round_def x_def q_def h_def n_def)
    moreover have "\<bar>of_int \<lfloor>x + 1 / 2\<rfloor> / 100 - real (hits st) / real (hits st + misses st) * 100\<bar> \<le> 1 / 200"
      using near by (simp add: h_def n_def abs_le_iff field_simps)
    ultimately show ?thesis by blast
  qed
  have totals: "totalHits (getStatistics fl D st) = hits st" "totalMisses (getStatistics fl D st) = misses st"
    by (simp_all add: getStatistics_def Let_def)
  have none: "hitRate (getStatistics fl D (run D ops (LocalCache_new D now path fsys))) = 0 \<and>
            totalHits (getStatistics fl D (run D ops (LocalCache_new D now path fsys))) = 0 \<and>
            totalMisses (getStatistics fl D (run D ops (LocalCache_new D now path fsys))) = 0"
    if "filter isGet ops = []"
  proof -
    have "hits (run D ops (LocalCache_new D now path fsys)) +
          misses (run D ops (LocalCache_new D now path fsys)) = 0"
      using run_requests [of D ops "LocalCache_new D now path fsys"] that by simp
    then show ?thesis by (simp add: getStatistics_def Let_def fl0 round0)
  qed
  have A: "0 < hits st + misses st \<and> hits st + misses st \<le> 10 ^ 11 \<longrightarrow>
            (\<exists>r :: int. hitRate (getStatistics fl D st) = fl (of_int r / 100) \<and>
               \<bar>of_int r / 100 - real (hits st) / real (hits st + misses st) * 100\<bar> \<le> 1 / 200)"
  proof (intro impI, elim conjE)
    assume "0 < hits st + misses st" "hits st + misses st \<le> 10 ^ 11"
    then show "\<exists>r :: int. hitRate (getStatistics fl D st) = fl (of_int r / 100) \<and>
               \<bar>of_int r / 100 - real (hits st) / real (hits st + misses st) * 100\<bar> \<le> 1 / 200"
      by (rule rate)
  qed
  have C: "filter isGet ops = [] \<longrightarrow>
            hitRate (getStatistics fl D (run D ops (LocalCache_new D now path fsys))) = 0 \<and>
            totalHits (getStatistics fl D (run D ops (LocalCache_new D now path fsys))) = 0 \<and>
            totalMisses (getStatistics fl D (run D ops (LocalCache_new D now path fsys))) = 0"
    by (rule impI) (rule none)
  show ?thesis
    by (rule conjI [OF A conjI [OF totals(1) conjI [OF totals(2) C]]])
qed

theorem hit_rate_is_rounded_percentage_witness:
  "rounds_like_binary64 binary64 \<and>
   0 < hits (example_store\<lparr>hits := 23, misses := 137\<rparr>) + misses (example_store\<lparr>hits := 23, misses := 137\<rparr>) \<and>
   hits (example_store\<lparr>hits := 23, misses := 137\<rparr>) + misses (example_store\<lparr>hits := 23, misses := 137\<rparr>) \<le> 10 ^ 11 \<and>
   (\<exists>r :: int. hitRate (getStatistics binary64 example_date (example_store\<lparr>hits := 23, misses := 137\<rparr>)) =
        binary64 (of_int r / 100) \<and>
      \<bar>of_int r / 100 - real 23 / real (23 + 137) * 100\<bar> \<le> 1 / 200) \<and>
   filter isGet [Set 1767355200000 ''#missing''
       \<lparr> originalLocator = ''#missing'', generatedLocator = ''button.submit'', strategy = ''CSS'' \<rparr>] = [] \<and>
   hitRate (getStatistics binary64 example_date
     (run example_date [Set 1767355200000 ''#missing''
          \<lparr> originalLocator = ''#missing'', generatedLocator = ''button.submit'', strategy = ''CSS'' \<rparr>]
        (LocalCache_new example_date 1767355200000 ''cache/locator_cache.json'' example_disk))) = 0"
proof -
  let ?st = "example_store\<lparr>hits := 23, misses := 137\<rparr>"
  let ?ops = "[Set 1767355200000 ''#missing''
       \<lparr> originalLocator = ''#missing'', generatedLocator = ''button.submit'', strategy = ''CSS'' \<rparr>]"
  note a = binary64_accuracy
  have b: "0 < hits ?st + misses ?st" "hits ?st + misses ?st \<le> 10 ^ 11" by simp_all
  have c: "filter isGet ?ops = []" by simp
  note T = hit_rate_is_rounded_percentage [OF a, of ?st example_date ?ops 1767355200000
      "''cache/locator_cache.json''" example_disk]
  have "\<exists>r :: int. hitRate (getStatistics binary64 example_date ?st) = binary64 (of_int r / 100) \<and>
      \<bar>of_int r / 100 - real (hits ?st) / real (hits ?st + misses ?st) * 100\<bar> \<le> 1 / 200"
    by (rule T [THEN conjunct1, THEN mp, OF conjI [OF b]])
  then have d: "\<exists>r :: int. hitRate (getStatistics binary64 example_date ?st) = binary64 (of_int r / 100) \<and>
      \<bar>of_int r / 100 - real 23 / real (23 + 137) * 100\<bar> \<le> 1 / 200"
    by simp
  have f: "hitRate (getStatistics binary64 example_date
     (run example_date ?ops (LocalCache_new example_date 1767355200000 ''cache/locator_cache.json'' example_disk))) = 0"
    by (rule T [THEN conjunct2, THEN conjunct2, THEN conjunct2, THEN mp, OF c, THEN conjunct1])
  show ?thesis
    by (rule conjI [OF a conjI [OF b(1) conjI [OF b(2) conjI [OF d conjI [OF c f]]]]])
qed

text \<open>
  C5 as stated fails at 23 hits and 137 misses. The percentage is exactly 14.375, which
  rounds to 14.38. In binary64 the quotient times 100 falls just below 14.375 and its
  product with 100 just below 1437.5, so \<^verbatim>\<open>Math.round\<close> gives 1437 and the reported rate is
  the number for 14.37, not the number for 14.38.
\<close>

theorem hit_rate_tie_comes_out_lower:
  "real 23 / real (23 + 137) * 100 = 14375 / 1000 \<and>
   hitRate (getStatistics binary64 example_date (example_store\<lparr>hits := 23, misses := 137\<rparr>)) =
     binary64 (1437 / 100) \<and>
   binary64 (1437 / 100) = 8089590830664253 / 2 ^ 49 \<and>
   binary64 (1438 / 100) = 8095220330198467 / 2 ^ 49 \<and>
   hitRate (getStatistics binary64 example_date (example_store\<lparr>hits := 23, misses := 137\<rparr>)) \<noteq>
     binary64 (1438 / 100) \<and>
   hitRate (getStatistics binary64 example_date (example_store\<lparr>hits := 23, misses := 137\<rparr>)) < 14371 / 1000"
proof -
  let ?st = "example_store\<lparr>hits := 23, misses := 137\<rparr>"
  have a: "real 23 / real (23 + 137) * 100 = 14375 / 1000" by simp
  have fl: "\<lfloor>(6322191859711999 / 2 ^ 42 :: real) + 1 / 2\<rfloor> = 1437"
    by (rule floor_unique) simp_all
  have s1: "binary64 (binary64 (binary64 (23 / 160) * 100) * 100) = 6322191859711999 / 2 ^ 42"
    by (simp only: binary64_23_160(1,2,3))
  have s2: "Math_round (6322191859711999 / 2 ^ 42) = 1437"
    by (simp only: Math_round_def fl of_int_numeral)
  have "hitRate (getStatistics binary64 example_date ?st) =
      binary64 (Math_round (binary64 (binary64 (binary64 (23 / 160) * 100) * 100)) / 100)"
    by (simp add: getStatistics_def Let_def)
  also have "\<dots> = binary64 (1437 / 100)"
    by (simp only: s1 s2)
  finally have b: "hitRate (getStatistics binary64 example_date ?st) = binary64 (1437 / 100)" .
  note c = binary64_23_160(4)
  note d = binary64_23_160(5)
  have e: "hitRate (getStatistics binary64 example_date ?st) \<noteq> binary64 (1438 / 100)"
    unfolding b c d by simp
  have f: "hitRate (getStatistics binary64 example_date ?st) < 14371 / 1000"
    unfolding b c by simp
  show ?thesis
    by (rule conjI [OF a conjI [OF b conjI [OF c conjI [OF d conjI [OF e f]]]]])
qed

text \<open>
  C7, at the input where it fails. The configuration asks for an expiry of one day, the
  document on disk holds one entry stamped midnight of 1 January 2026, and the generator
  (and with it the store) is constructed 36 hours later. The entry is older than the
  configured maximum age and is still in the store after the load: the store is given the
  path only and \<^verbatim>\<open>loadCache\<close> always cleans up with the default of two days.
\<close>

theorem configured_expiry_is_not_applied:
  "cacheExpirationDays (example_config\<lparr>cacheExpirationDays := 1\<rparr>) * 24 * 60 * 60 * 1000
     < 1767355200000 - 1767225600000 \<and>
   getTime example_date (timestamp example_entry) = Some 1767225600000 \<and>
   files example_disk (SelfHealingConfig.cachePath (example_config\<lparr>cacheExpirationDays := 1\<rparr>)) =
     Document (cacheObject [(''#old-id'', example_entry)]) \<and>
   cache (localCache (SmartLocatorGenerator_new example_date 1767355200000
      (example_config\<lparr>cacheExpirationDays := 1\<rparr>) example_disk)) = [(''#old-id'', example_entry)]"
  by (simp add: SmartLocatorGenerator_new_def LocalCache_getInstance_def LocalCache_new_def loadCache_def
      Object_entries_def cacheObject_def cleanupExpiredEntries_def expired_def
      example_config_def example_disk_def example_date_def example_entry_def
      isValidCacheEntry_def typeof_string_def typeof_number_def entryToJson_def
      asCacheEntry_def str_field_def num_field_def)

section \<open>Facts about the resolver\<close>

lemma logCall_fields [simp]:
  "configManager (logCall c s) = configManager s"
  "generator_config (logCall c s) = generator_config s"
  "openai (logCall c s) = openai s"
  "localCache (logCall c s) = localCache s"
  "logger (logCall c s) = logger s @ [c]"
  by (simp_all add: logCall_def)

lemma generate_hit:
  assumes "map_of (cache (localCache s)) (LocatorGenerationRequest.originalLocator request) = Some entry"
  shows "generateSmartLocator D now reply request s =
     (Some (generatedLocator entry),
      logCall (LogCacheHit (LocatorGenerationRequest.originalLocator request) (generatedLocator entry))
        (s\<lparr>localCache := (localCache s)\<lparr>hits := hits (localCache s) + 1\<rparr>\<rparr>))"
  using assms by (simp add: generateSmartLocator_def LocalCache_get_def Let_def)

lemma generate_miss_no_client:
  assumes "map_of (cache (localCache s)) (LocatorGenerationRequest.originalLocator request) = None"
    and "openai s = None"
  shows "generateSmartLocator D now reply request s =
     (None,
      logCall (Log_error ''OpenAI client not initialized. Cannot generate smart locator.'')
        (logCall (LogCacheMiss (LocatorGenerationRequest.originalLocator request))
           (s\<lparr>localCache := (localCache s)\<lparr>misses := misses (localCache s) + 1\<rparr>\<rparr>)))"
  using assms by (simp add: generateSmartLocator_def LocalCache_get_def Let_def)

lemma generate_fresh:
  assumes "map_of (cache (localCache s)) (LocatorGenerationRequest.originalLocator request) = None"
    and "openai s \<noteq> None"
    and "reply = Parsed response"
    and "locator response \<noteq> []"
    and "LocatorGenerationResponse.strategy response \<noteq> []"
  shows "generateSmartLocator D now reply request s =
     (Some (locator response),
      logCall (LogSmartLocatorGeneration (LocatorGenerationRequest.originalLocator request)
                 (locator response) (LocatorGenerationResponse.strategy response))
        ((logCall (LogApiCall (openApiModel (generator_config s)))
           (logCall (LogCacheMiss (LocatorGenerationRequest.originalLocator request))
              (s\<lparr>localCache := (localCache s)\<lparr>misses := misses (localCache s) + 1\<rparr>\<rparr>)))
         \<lparr>localCache :=
            LocalCache_set D now (LocatorGenerationRequest.originalLocator request)
              \<lparr> originalLocator = LocatorGenerationRequest.originalLocator request,
                generatedLocator = locator response,
                strategy = LocatorGenerationResponse.strategy response \<rparr>
              ((localCache s)\<lparr>misses := misses (localCache s) + 1\<rparr>)\<rparr>))"
  using assms by (simp add: generateSmartLocator_def callOpenAI_def LocalCache_get_def Let_def)

lemma callOpenAI_config: "configManager (snd (callOpenAI reply s)) = configManager s"
  by (simp add: callOpenAI_def Let_def split: completion.splits)

lemma generate_config: "configManager (snd (generateSmartLocator D now reply request s)) = configManager s"
proof (cases "callOpenAI reply
    (logCall (LogCacheMiss (LocatorGenerationRequest.originalLocator request))
       (s\<lparr>localCache := snd (LocalCache_get (LocatorGenerationRequest.originalLocator request) (localCache s))\<rparr>))")
  case (Pair r s3)
  then have "configManager s3 = configManager s"
    using callOpenAI_config [of reply
        "logCall (LogCacheMiss (LocatorGenerationRequest.originalLocator request))
           (s\<lparr>localCache := snd (LocalCache_get (LocatorGenerationRequest.originalLocator request) (localCache s))\<rparr>)"]
    by simp
  with Pair show ?thesis
    by (simp add: generateSmartLocator_def Let_def split: option.splits)
qed

lemma resolve_config: "configManager (snd (resolveSmartLocator D now reply pg original options s)) = configManager s"
  by (simp add: resolveSmartLocator_def Let_def generate_config updateCacheSuccess_def
      updateCacheFailure_def split: option.splits)

lemma optionsTimeout_explicit [simp]:
  "optionsTimeout (options\<lparr>SelfHealingOptions.timeout := Some (optionsTimeout options)\<rparr>) = optionsTimeout options"
  by (simp add: optionsTimeout_def)

lemma resolve_timeout_explicit:
  "resolveSmartLocator D now reply pg original
     (options\<lparr>SelfHealingOptions.timeout := Some (optionsTimeout options)\<rparr>) s =
   resolveSmartLocator D now reply pg original options s"
proof -
  have d: "SelfHealingOptions.elementDescription
             (options\<lparr>SelfHealingOptions.timeout := Some (optionsTimeout options)\<rparr>) =
           SelfHealingOptions.elementDescription options"
    by simp
  show ?thesis
    unfolding resolveSmartLocator_def optionsTimeout_explicit d by (rule refl)
qed

lemma getLocatorWithWait_timeout_explicit:
  "getLocatorWithWait D now reply pg original
     (options\<lparr>SelfHealingOptions.timeout := Some (optionsTimeout options)\<rparr>) s =
   getLocatorWithWait D now reply pg original options s"
  by (simp add: getLocatorWithWait_def resolve_timeout_explicit)

lemma resolve_errors:
  assumes "fst (resolveSmartLocator D now reply pg original options s) = Inl e"
  shows "e = SelfHealingLocatorError (''Locator failed and smart locator is disabled: '' @ original) original None \<or>
         e = SelfHealingLocatorError (''Smart locator generation failed for: '' @ original) original None \<or>
         (\<exists>l. e = SelfHealingLocatorError (''Smart locator validation failed for: '' @ original) original (Some l))"
proof (cases "isSmartLocatorEnabled (configManager s)")
  case False
  with assms have "e = SelfHealingLocatorError (''Locator failed and smart locator is disabled: '' @ original) original None"
    by (simp add: resolveSmartLocator_def)
  then show ?thesis by (rule disjI1)
next
  case True
  define g where "g = fst (generateSmartLocator D now reply
       \<lparr> LocatorGenerationRequest.originalLocator = original,
         LocatorGenerationRequest.page = pg,
         LocatorGenerationRequest.errorMessage = Some ''Element not found with original locator'',
         LocatorGenerationRequest.elementDescription = SelfHealingOptions.elementDescription options \<rparr> s)"
  show ?thesis
  proof (cases g)
    case None
    with assms True have "e = SelfHealingLocatorError (''Smart locator generation failed for: '' @ original) original None"
      by (simp add: resolveSmartLocator_def Let_def g_def)
    then show ?thesis by (intro disjI2 disjI1)
  next
    case (Some l)
    show ?thesis
    proof (cases "l = []")
      case True
      with assms \<open>isSmartLocatorEnabled (configManager s)\<close> Some
      have "e = SelfHealingLocatorError (''Smart locator generation failed for: '' @ original) original None"
        by (simp add: resolveSmartLocator_def Let_def g_def)
      then show ?thesis by (intro disjI2 disjI1)
    next
      case False
      with assms \<open>isSmartLocatorEnabled (configManager s)\<close> Some
      have "e = SelfHealingLocatorError (''Smart locator validation failed for: '' @ original) original (Some l)"
        by (simp add: resolveSmartLocator_def Let_def g_def split: if_splits)
      then have "\<exists>l. e = SelfHealingLocatorError (''Smart locator validation failed for: '' @ original) original (Some l)"
        by (rule exI)
      then show ?thesis by (intro disjI2)
    qed
  qed
qed

section \<open>Properties of the resolver\<close>

text \<open>
  C1, as the code has it. Let healing be enabled, the original locator fail, and the cache
  hold for the key an entry whose generated locator is not empty and does not validate
  against the page. Then the resolution ends with the error ``Smart locator validation
  failed'' that carries the original locator and the cached candidate: the candidate is
  not returned. The entry stays in the cache with its \<open>failureCount\<close> raised by exactly 1
  and nothing else in the map changes. No fresh generation follows: the only calls logged
  are the cache hit and the failure, so the provider is not asked and nothing is set.
\<close>

theorem stale_cached_locator_fails_validation:
  assumes "\<not> first_attached pg original (optionsTimeout options)"
    and "isSmartLocatorEnabled (configManager s)"
    and "map_of (cache (localCache s)) original = Some entry"
    and "generatedLocator entry \<noteq> []"
    and "\<not> attached pg (generatedLocator entry) (optionsTimeout options)"
  shows "fst (getLocatorWithWait D now reply pg original options s) =
           Inl (SelfHealingLocatorError (''Smart locator validation failed for: '' @ original)
                  original (Some (generatedLocator entry))) \<and>
         cache (localCache (snd (getLocatorWithWait D now reply pg original options s))) =
           AList.update original (entry\<lparr>failureCount := failureCount entry + 1\<rparr>) (cache (localCache s)) \<and>
         logger (snd (getLocatorWithWait D now reply pg original options s)) =
           logger s @ [LogCacheHit original (generatedLocator entry),
                       LogSelfHealingFailure original (''Smart locator validation failed for: '' @ original)]"
  using assms
  by (simp add: getLocatorWithWait_def resolveSmartLocator_def generate_hit validateLocator_def
      updateCacheFailure_def updateFailure_present Let_def)

theorem stale_cached_locator_fails_validation_witness:
  "\<not> first_attached (page_with [''button.submit'']) ''#old-id'' (optionsTimeout example_options) \<and>
   isSmartLocatorEnabled (configManager example_state) \<and>
   map_of (cache (localCache example_state)) ''#old-id'' = Some example_entry \<and>
   generatedLocator example_entry \<noteq> [] \<and>
   \<not> attached (page_with [''button.submit'']) (generatedLocator example_entry) (optionsTimeout example_options) \<and>
   fst (getLocatorWithWait example_date 1767355200000 example_reply (page_with [''button.submit''])
          ''#old-id'' example_options example_state) =
     Inl (SelfHealingLocatorError ''Smart locator validation failed for: #old-id'' ''#old-id''
            (Some ''[data-testid=submit]'')) \<and>
   cache (localCache (snd (getLocatorWithWait example_date 1767355200000 example_reply
          (page_with [''button.submit'']) ''#old-id'' example_options example_state))) =
     [(''#old-id'', example_entry\<lparr>failureCount := 1\<rparr>)] \<and>
   logger (snd (getLocatorWithWait example_date 1767355200000 example_reply
          (page_with [''button.submit'']) ''#old-id'' example_options example_state)) =
     [LogCacheHit ''#old-id'' ''[data-testid=submit]'',
      LogSelfHealingFailure ''#old-id'' ''Smart locator validation failed for: #old-id'']"
proof -
  let ?pg = "page_with [''button.submit'']"
  have h1: "\<not> first_attached ?pg ''#old-id'' (optionsTimeout example_options)"
    by (simp add: page_with_def)
  have h2: "isSmartLocatorEnabled (configManager example_state)"
    by (simp add: isSmartLocatorEnabled_def example_state_def example_config_def)
  have h3: "map_of (cache (localCache example_state)) ''#old-id'' = Some example_entry"
    by (simp add: example_state_def example_store_def)
  have h4: "generatedLocator example_entry \<noteq> []"
    by (simp add: example_entry_def)
  have h5: "\<not> attached ?pg (generatedLocator example_entry) (optionsTimeout example_options)"
    by (simp add: page_with_def example_entry_def)
  note T = stale_cached_locator_fails_validation [OF h1 h2 h3 h4 h5, of example_date 1767355200000 example_reply]
  have c1: "fst (getLocatorWithWait example_date 1767355200000 example_reply ?pg
          ''#old-id'' example_options example_state) =
     Inl (SelfHealingLocatorError ''Smart locator validation failed for: #old-id'' ''#old-id''
            (Some ''[data-testid=submit]''))"
    using T [THEN conjunct1] by (simp add: example_entry_def)
  have c2: "cache (localCache (snd (getLocatorWithWait example_date 1767355200000 example_reply
          ?pg ''#old-id'' example_options example_state))) =
     [(''#old-id'', example_entry\<lparr>failureCount := 1\<rparr>)]"
    using T [THEN conjunct2, THEN conjunct1]
    by (simp add: example_state_def example_store_def example_entry_def)
  have c3: "logger (snd (getLocatorWithWait example_date 1767355200000 example_reply
          ?pg ''#old-id'' example_options example_state)) =
     [LogCacheHit ''#old-id'' ''[data-testid=submit]'',
      LogSelfHealingFailure ''#old-id'' ''Smart locator validation failed for: #old-id'']"
    using T [THEN conjunct2, THEN conjunct2]
    by (simp add: example_state_def example_entry_def)
  show ?thesis
    by (rule conjI [OF h1 conjI [OF h2 conjI [OF h3 conjI [OF h4 conjI [OF h5 conjI [OF c1 conjI [OF c2 c3]]]]]]])
qed

text \<open>
  C1 as stated fails where the provider is ready to answer. Healing is enabled, the client
  exists, the cached candidate \<^verbatim>\<open>[data-testid=submit]\<close> for \<^verbatim>\<open>#old-id\<close> is not on the page
  and the locator \<^verbatim>\<open>button.submit\<close> that the provider would give is. The machine does not go
  on to generate: the resolution fails with the validation error for the cached candidate,
  no API call is logged and the cache still maps the key to the stale candidate.
\<close>

theorem stale_cached_locator_is_not_regenerated:
  "isSmartLocatorEnabled (configManager example_state) \<and>
   openai example_state = Some ''sk-example'' \<and>
   attached (page_with [''button.submit'']) ''button.submit'' (optionsTimeout example_options) \<and>
   fst (getLocatorWithWait example_date 1767355200000 example_reply (page_with [''button.submit''])
          ''#old-id'' example_options example_state) =
     Inl (SelfHealingLocatorError ''Smart locator validation failed for: #old-id'' ''#old-id''
            (Some ''[data-testid=submit]'')) \<and>
   logger (snd (getLocatorWithWait example_date 1767355200000 example_reply
          (page_with [''button.submit'']) ''#old-id'' example_options example_state)) =
     [LogCacheHit ''#old-id'' ''[data-testid=submit]'',
      LogSelfHealingFailure ''#old-id'' ''Smart locator validation failed for: #old-id''] \<and>
   cache (localCache (snd (getLocatorWithWait example_date 1767355200000 example_reply
          (page_with [''button.submit'']) ''#old-id'' example_options example_state))) =
     [(''#old-id'',
       \<lparr> originalLocator = ''#old-id'', generatedLocator = ''[data-testid=submit]'', strategy = ''CSS'',
         timestamp = ''2026-01-01T00:00:00.000Z'', successCount = 0, failureCount = 1 \<rparr>)]"
  by (simp add: getLocatorWithWait_def resolveSmartLocator_def generateSmartLocator_def
      LocalCache_get_def validateLocator_def updateCacheFailure_def updateFailure_def saveCache_def
      logCall_def Let_def optionsTimeout_def isSmartLocatorEnabled_def page_with_def
      example_state_def example_store_def example_entry_def example_config_def example_options_def
      example_disk_def)

text \<open>
  C2, as the code has it. When the original locator fails, the gate \<^verbatim>\<open>isSmartLocatorEnabled\<close>
  comes first. With healing disabled the resolution ends with the error ``Locator failed
  and smart locator is disabled'' and the state is what it was: the cache is not consulted.
  With healing enabled the cache is consulted. A hit with a non-empty locator that
  validates makes \<^verbatim>\<open>resolveSmartLocator\<close> return the cached locator, with the entry's
  \<open>successCount\<close> raised by 1 and only the hit and the success logged: no check of the
  client and no API call; \<^verbatim>\<open>getLocatorWithWait\<close> then returns that locator in healing mode
  and in discovery mode throws the error that names the original and the cached locator.
  A miss leads to the check of the OpenAI client; without a client
  the resolution ends with ``Smart locator generation failed'', the map unchanged and no
  API call logged.
\<close>

theorem healing_gate_precedes_cache:
  assumes "\<not> first_attached pg original (optionsTimeout options)"
  shows "(\<not> isSmartLocatorEnabled (configManager s) \<longrightarrow>
            getLocatorWithWait D now reply pg original options s =
              (Inl (SelfHealingLocatorError
                      (''Locator failed and smart locator is disabled: '' @ original) original None), s)) \<and>
         (isSmartLocatorEnabled (configManager s) \<and>
          map_of (cache (localCache s)) original = Some entry \<and>
          generatedLocator entry \<noteq> [] \<and>
          attached pg (generatedLocator entry) (optionsTimeout options) \<longrightarrow>
            fst (resolveSmartLocator D now reply pg original options s) = Inr (generatedLocator entry) \<and>
            cache (localCache (snd (resolveSmartLocator D now reply pg original options s))) =
              AList.update original (entry\<lparr>successCount := successCount entry + 1\<rparr>) (cache (localCache s)) \<and>
            logger (snd (resolveSmartLocator D now reply pg original options s)) =
              logger s @ [LogCacheHit original (generatedLocator entry),
                          LogSelfHealingSuccess original (generatedLocator entry)] \<and>
            (shouldRunWithSmartLocator (configManager s) \<longrightarrow>
               fst (getLocatorWithWait D now reply pg original options s) =
                 Inr (Locator (generatedLocator entry))) \<and>
            (\<not> shouldRunWithSmartLocator (configManager s) \<longrightarrow>
               (\<exists>message. fst (getLocatorWithWait D now reply pg original options s) = Inl (Error message) \<and>
                  sublist original message \<and> sublist (generatedLocator entry) message))) \<and>
         (isSmartLocatorEnabled (configManager s) \<and>
          map_of (cache (localCache s)) original = None \<and>
          openai s = None \<longrightarrow>
            fst (getLocatorWithWait D now reply pg original options s) =
              Inl (SelfHealingLocatorError (''Smart locator generation failed for: '' @ original) original None) \<and>
            cache (localCache (snd (getLocatorWithWait D now reply pg original options s))) = cache (localCache s) \<and>
            logger (snd (getLocatorWithWait D now reply pg original options s)) =
              logger s @ [LogCacheMiss original,
                          Log_error ''OpenAI client not initialized. Cannot generate smart locator.'',
                          LogSelfHealingFailure original (''Smart locator generation failed for: '' @ original)])"
proof -
  have old: "sublist original (suggestionMessage original (generatedLocator entry))"
    unfolding suggestionMessage_def sublist_def by (metis append.assoc)
  have new: "sublist (generatedLocator entry) (suggestionMessage original (generatedLocator entry))"
    unfolding suggestionMessage_def sublist_def by (metis append.assoc)
  show ?thesis
    using assms old new
    by (simp add: getLocatorWithWait_def resolveSmartLocator_def generate_hit generate_miss_no_client
        validateLocator_def updateCacheSuccess_def updateSuccess_present Let_def)
qed

theorem healing_gate_precedes_cache_witness:
  "\<not> first_attached (page_with [''[data-testid=submit]'']) ''#old-id'' (optionsTimeout example_options) \<and>
   \<not> isSmartLocatorEnabled (configManager disabled_state) \<and>
   getLocatorWithWait example_date 1767355200000 example_reply (page_with [''[data-testid=submit]''])
       ''#old-id'' example_options disabled_state =
     (Inl (SelfHealingLocatorError ''Locator failed and smart locator is disabled: #old-id'' ''#old-id'' None),
      disabled_state) \<and>
   isSmartLocatorEnabled (configManager example_state) \<and>
   map_of (cache (localCache example_state)) ''#old-id'' = Some example_entry \<and>
   generatedLocator example_entry \<noteq> [] \<and>
   attached (page_with [''[data-testid=submit]'']) (generatedLocator example_entry) (optionsTimeout example_options) \<and>
   fst (resolveSmartLocator example_date 1767355200000 example_reply (page_with [''[data-testid=submit]''])
       ''#old-id'' example_options example_state) = Inr ''[data-testid=submit]'' \<and>
   cache (localCache (snd (resolveSmartLocator example_date 1767355200000 example_reply
       (page_with [''[data-testid=submit]'']) ''#old-id'' example_options example_state))) =
     [(''#old-id'', example_entry\<lparr>successCount := 1\<rparr>)] \<and>
   \<not> shouldRunWithSmartLocator (configManager example_state) \<and>
   (\<exists>message. fst (getLocatorWithWait example_date 1767355200000 example_reply
         (page_with [''[data-testid=submit]'']) ''#old-id'' example_options example_state) = Inl (Error message) \<and>
      sublist ''#old-id'' message \<and> sublist ''[data-testid=submit]'' message) \<and>
   \<not> first_attached (page_with []) ''#missing'' (optionsTimeout example_options) \<and>
   isSmartLocatorEnabled (configManager clientless_state) \<and>
   map_of (cache (localCache clientless_state)) ''#missing'' = None \<and>
   openai clientless_state = None \<and>
   fst (getLocatorWithWait example_date 1767355200000 example_reply (page_with [])
       ''#missing'' example_options clientless_state) =
     Inl (SelfHealingLocatorError ''Smart locator generation failed for: #missing'' ''#missing'' None)"
proof -
  let ?pg = "page_with [''[data-testid=submit]'']"
  have h1: "\<not> first_attached ?pg ''#old-id'' (optionsTimeout example_options)"
    by (simp add: page_with_def)
  have d: "\<not> isSmartLocatorEnabled (configManager disabled_state)"
    by (simp add: isSmartLocatorEnabled_def disabled_state_def)
  have e1: "isSmartLocatorEnabled (configManager example_state)"
    by (simp add: isSmartLocatorEnabled_def example_state_def example_config_def)
  have e2: "map_of (cache (localCache example_state)) ''#old-id'' = Some example_entry"
    by (simp add: example_state_def example_store_def)
  have e3: "generatedLocator example_entry \<noteq> []"
    by (simp add: example_entry_def)
  have e4: "attached ?pg (generatedLocator example_entry) (optionsTimeout example_options)"
    by (simp add: page_with_def example_entry_def)
  have h2: "\<not> first_attached (page_with []) ''#missing'' (optionsTimeout example_options)"
    by (simp add: page_with_def)
  have m1: "isSmartLocatorEnabled (configManager clientless_state)"
    by (simp add: isSmartLocatorEnabled_def clientless_state_def example_state_def example_config_def)
  have m2: "map_of (cache (localCache clientless_state)) ''#missing'' = None"
    by (simp add: clientless_state_def example_state_def example_store_def)
  have m3: "openai clientless_state = None"
    by (simp add: clientless_state_def)
  note A = healing_gate_precedes_cache [OF h1, where s = disabled_state and D = example_date
      and now = 1767355200000 and reply = example_reply]
  note B = healing_gate_precedes_cache [OF h1, where s = example_state and entry = example_entry
      and D = example_date and now = 1767355200000 and reply = example_reply]
  note C = healing_gate_precedes_cache [OF h2, where s = clientless_state and D = example_date
      and now = 1767355200000 and reply = example_reply]
  have a: "getLocatorWithWait example_date 1767355200000 example_reply ?pg
       ''#old-id'' example_options disabled_state =
     (Inl (SelfHealingLocatorError ''Locator failed and smart locator is disabled: #old-id'' ''#old-id'' None),
      disabled_state)"
    using A [THEN conjunct1, THEN mp, OF d] by simp
  note B' = B [THEN conjunct2, THEN conjunct1, THEN mp, OF conjI [OF e1 conjI [OF e2 conjI [OF e3 e4]]]]
  have b1: "fst (resolveSmartLocator example_date 1767355200000 example_reply ?pg
       ''#old-id'' example_options example_state) = Inr ''[data-testid=submit]''"
    using B' [THEN conjunct1] by (simp add: example_entry_def)
  have b2: "cache (localCache (snd (resolveSmartLocator example_date 1767355200000 example_reply
       ?pg ''#old-id'' example_options example_state))) =
     [(''#old-id'', example_entry\<lparr>successCount := 1\<rparr>)]"
    using B' [THEN conjunct2, THEN conjunct1]
    by (simp add: example_state_def example_store_def example_entry_def)
  have nd: "\<not> shouldRunWithSmartLocator (configManager example_state)"
    by (simp add: shouldRunWithSmartLocator_def example_state_def example_config_def)
  have b3: "\<exists>message. fst (getLocatorWithWait example_date 1767355200000 example_reply
         ?pg ''#old-id'' example_options example_state) = Inl (Error message) \<and>
      sublist ''#old-id'' message \<and> sublist ''[data-testid=submit]'' message"
    using B' [THEN conjunct2, THEN conjunct2, THEN conjunct2, THEN conjunct2, THEN mp, OF nd]
    by (simp add: example_entry_def)
  have c: "fst (getLocatorWithWait example_date 1767355200000 example_reply (page_with [])
       ''#missing'' example_options clientless_state) =
     Inl (SelfHealingLocatorError ''Smart locator generation failed for: #missing'' ''#missing'' None)"
    using C [THEN conjunct2, THEN conjunct2, THEN mp, OF conjI [OF m1 conjI [OF m2 m3]], THEN conjunct1]
    by simp
  show ?thesis
    by (rule conjI [OF h1 conjI [OF d conjI [OF a conjI [OF e1 conjI [OF e2 conjI [OF e3 conjI [OF e4
          conjI [OF b1 conjI [OF b2 conjI [OF nd conjI [OF b3 conjI [OF h2 conjI [OF m1 conjI [OF m2
          conjI [OF m3 c]]]]]]]]]]]]]]])
qed

text \<open>
  C2 as stated fails with healing disabled. The cache holds for \<^verbatim>\<open>#old-id\<close> the candidate
  \<^verbatim>\<open>[data-testid=submit]\<close>, which is on the page. The resolution does not return it: it
  fails with the error for disabled healing, and the counters of the store show that the
  cache was not read.
\<close>

theorem cached_locator_unused_when_healing_disabled:
  "\<not> isSmartLocatorEnabled (configManager disabled_state) \<and>
   map_of (cache (localCache disabled_state)) ''#old-id'' = Some example_entry \<and>
   attached (page_with [''[data-testid=submit]'']) (generatedLocator example_entry) (optionsTimeout example_options) \<and>
   \<not> first_attached (page_with [''[data-testid=submit]'']) ''#old-id'' (optionsTimeout example_options) \<and>
   fst (getLocatorWithWait example_date 1767355200000 example_reply (page_with [''[data-testid=submit]''])
       ''#old-id'' example_options disabled_state) =
     Inl (SelfHealingLocatorError ''Locator failed and smart locator is disabled: #old-id'' ''#old-id'' None) \<and>
   hits (localCache (snd (getLocatorWithWait example_date 1767355200000 example_reply
       (page_with [''[data-testid=submit]'']) ''#old-id'' example_options disabled_state))) = 0 \<and>
   misses (localCache (snd (getLocatorWithWait example_date 1767355200000 example_reply
       (page_with [''[data-testid=submit]'']) ''#old-id'' example_options disabled_state))) = 0 \<and>
   logger (snd (getLocatorWithWait example_date 1767355200000 example_reply
       (page_with [''[data-testid=submit]'']) ''#old-id'' example_options disabled_state)) = []"
  by (simp add: getLocatorWithWait_def resolveSmartLocator_def isSmartLocatorEnabled_def
      optionsTimeout_def page_with_def disabled_state_def example_state_def example_store_def
      example_entry_def example_config_def example_options_def)




text \<open>
  C4. Let the original locator fail, healing be enabled, the cache hold nothing for the
  key, the client exist, the provider reply with a non-empty locator and strategy, and
  that locator validate against the page. In discovery mode (\<^verbatim>\<open>shouldRunWithSmartLocator\<close>
  false) \<^verbatim>\<open>getLocatorWithWait\<close> throws an \<^verbatim>\<open>Error\<close> whose message contains the text of the
  original locator and the text of the suggested locator. In healing mode it returns the
  suggested locator and throws nothing.
\<close>

theorem fresh_heal_reported_or_applied:
  assumes "\<not> first_attached pg original (optionsTimeout options)"
    and "isSmartLocatorEnabled (configManager s)"
    and "map_of (cache (localCache s)) original = None"
    and "openai s \<noteq> None"
    and "reply = Parsed response"
    and "locator response \<noteq> []"
    and "LocatorGenerationResponse.strategy response \<noteq> []"
    and "attached pg (locator response) (optionsTimeout options)"
  shows "(\<not> shouldRunWithSmartLocator (configManager s) \<longrightarrow>
            (\<exists>message. fst (getLocatorWithWait D now reply pg original options s) = Inl (Error message) \<and>
               sublist original message \<and> sublist (locator response) message)) \<and>
         (shouldRunWithSmartLocator (configManager s) \<longrightarrow>
            fst (getLocatorWithWait D now reply pg original options s) = Inr (Locator (locator response)))"
proof -
  have old: "sublist original (suggestionMessage original (locator response))"
    unfolding suggestionMessage_def sublist_def by (metis append.assoc)
  have new: "sublist (locator response) (suggestionMessage original (locator response))"
    unfolding suggestionMessage_def sublist_def by (metis append.assoc)
  show ?thesis
    using assms old new
    by (simp add: getLocatorWithWait_def resolveSmartLocator_def generate_fresh validateLocator_def
        updateCacheSuccess_def Let_def logCall_def)
qed

theorem fresh_heal_reported_or_applied_witness:
  "\<not> first_attached (page_with [''button.submit'']) ''#missing'' (optionsTimeout example_options) \<and>
   isSmartLocatorEnabled (configManager example_state) \<and>
   isSmartLocatorEnabled (configManager healing_state) \<and>
   map_of (cache (localCache example_state)) ''#missing'' = None \<and>
   map_of (cache (localCache healing_state)) ''#missing'' = None \<and>
   openai example_state \<noteq> None \<and>
   openai healing_state \<noteq> None \<and>
   attached (page_with [''button.submit'']) ''button.submit'' (optionsTimeout example_options) \<and>
   \<not> shouldRunWithSmartLocator (configManager example_state) \<and>
   (\<exists>message. fst (getLocatorWithWait example_date 1767355200000 example_reply (page_with [''button.submit''])
         ''#missing'' example_options example_state) = Inl (Error message) \<and>
      sublist ''#missing'' message \<and> sublist ''button.submit'' message) \<and>
   shouldRunWithSmartLocator (configManager healing_state) \<and>
   fst (getLocatorWithWait example_date 1767355200000 example_reply (page_with [''button.submit''])
         ''#missing'' example_options healing_state) = Inr (Locator ''button.submit'')"
proof -
  let ?pg = "page_with [''button.submit'']"
  let ?r = "\<lparr> LocatorGenerationResponse.locator = ''button.submit'',
              LocatorGenerationResponse.strategy = ''CSS'',
              LocatorGenerationResponse.confidence = 80,
              LocatorGenerationResponse.reasoning = None \<rparr>"
  have h1: "\<not> first_attached ?pg ''#missing'' (optionsTimeout example_options)"
    by (simp add: page_with_def)
  have h2: "isSmartLocatorEnabled (configManager example_state)"
    by (simp add: isSmartLocatorEnabled_def example_state_def example_config_def)
  have g2: "isSmartLocatorEnabled (configManager healing_state)"
    by (simp add: isSmartLocatorEnabled_def healing_state_def example_config_def)
  have h3: "map_of (cache (localCache example_state)) ''#missing'' = None"
    by (simp add: example_state_def example_store_def)
  have g3: "map_of (cache (localCache healing_state)) ''#missing'' = None"
    by (simp add: healing_state_def example_state_def example_store_def)
  have h4: "openai example_state \<noteq> None"
    by (simp add: example_state_def)
  have g4: "openai healing_state \<noteq> None"
    by (simp add: healing_state_def example_state_def)
  have h5: "example_reply = Parsed ?r"
    by (simp add: example_reply_def)
  have h6: "locator ?r \<noteq> []" by simp
  have h7: "LocatorGenerationResponse.strategy ?r \<noteq> []" by simp
  have y: "attached ?pg ''button.submit'' (optionsTimeout example_options)"
    by (simp add: page_with_def)
  have h8: "attached ?pg (locator ?r) (optionsTimeout example_options)"
    using y by simp
  have nd: "\<not> shouldRunWithSmartLocator (configManager example_state)"
    by (simp add: shouldRunWithSmartLocator_def example_state_def example_config_def)
  have hd: "shouldRunWithSmartLocator (configManager healing_state)"
    by (simp add: shouldRunWithSmartLocator_def isSmartLocatorEnabled_def healing_state_def example_config_def)
  note T = fresh_heal_reported_or_applied [OF h1 h2 h3 h4 h5 h6 h7 h8,
      where D = example_date and now = 1767355200000]
  note U = fresh_heal_reported_or_applied [OF h1 g2 g3 g4 h5 h6 h7 h8,
      where D = example_date and now = 1767355200000]
  have a: "\<exists>message. fst (getLocatorWithWait example_date 1767355200000 example_reply ?pg
         ''#missing'' example_options example_state) = Inl (Error message) \<and>
      sublist ''#missing'' message \<and> sublist ''button.submit'' message"
    using T [THEN conjunct1, THEN mp, OF nd] by (simp only: LocatorGenerationResponse.simps)
  have b: "fst (getLocatorWithWait example_date 1767355200000 example_reply ?pg
         ''#missing'' example_options healing_state) = Inr (Locator ''button.submit'')"
    using U [THEN conjunct2, THEN mp, OF hd] by (simp only: LocatorGenerationResponse.simps)
  show ?thesis
    by (rule conjI [OF h1 conjI [OF h2 conjI [OF g2 conjI [OF h3 conjI [OF g3 conjI [OF h4 conjI [OF g4
          conjI [OF y conjI [OF nd conjI [OF a conjI [OF hd b]]]]]]]]]]])
qed

text \<open>
  C9. \<^verbatim>\<open>exists\<close> returns a boolean in every case: \<^verbatim>\<open>true\<close> when \<^verbatim>\<open>getLocatorWithWait\<close> returns a
  locator and \<^verbatim>\<open>false\<close> when it throws, with the state that call leaves. Whatever error the
  resolution raises makes it \<^verbatim>\<open>false\<close>, and the errors it can raise are the four of the
  resolver: healing disabled, generation failed, validation failed, and the request for
  review in discovery mode. It is \<^verbatim>\<open>true\<close> exactly when the original locator is attached,
  or healed locators are applied and \<^verbatim>\<open>resolveSmartLocator\<close> returns one.
\<close>

theorem exists_turns_errors_into_false:
  "fst (exists D now reply pg original options s) =
     (case fst (getLocatorWithWait D now reply pg original options s) of
        Inr l \<Rightarrow> True
      | Inl e \<Rightarrow> False) \<and>
   snd (exists D now reply pg original options s) =
     snd (getLocatorWithWait D now reply pg original options s) \<and>
   (\<forall>e. fst (getLocatorWithWait D now reply pg original options s) = Inl e \<longrightarrow>
      \<not> fst (exists D now reply pg original options s) \<and>
      (e = SelfHealingLocatorError (''Locator failed and smart locator is disabled: '' @ original) original None \<or>
       e = SelfHealingLocatorError (''Smart locator generation failed for: '' @ original) original None \<or>
       (\<exists>l. e = SelfHealingLocatorError (''Smart locator validation failed for: '' @ original) original (Some l)) \<or>
       (\<exists>l. e = Error (suggestionMessage original l)))) \<and>
   (fst (exists D now reply pg original options s) \<longleftrightarrow>
      first_attached pg original (optionsTimeout options) \<or>
      shouldRunWithSmartLocator (configManager s) \<and>
      (\<exists>l. fst (resolveSmartLocator D now reply pg original options s) = Inr l))"
proof -
  let ?g = "getLocatorWithWait D now reply pg original options s"
  let ?r = "resolveSmartLocator D now reply pg original options s"
  have ex: "exists D now reply pg original options s =
      (case ?g of (Inr l, s1) \<Rightarrow> (True, s1) | (Inl e, s1) \<Rightarrow> (False, s1))"
    by (simp add: exists_def getLocatorWithWait_timeout_explicit)
  have one: "fst (exists D now reply pg original options s) =
      (case fst ?g of Inr l \<Rightarrow> True | Inl e \<Rightarrow> False)"
    unfolding ex by (cases ?g) (simp split: sum.splits)
  have two: "snd (exists D now reply pg original options s) = snd ?g"
    unfolding ex by (cases ?g) (simp split: sum.splits)
  have kinds: "e = SelfHealingLocatorError (''Locator failed and smart locator is disabled: '' @ original) original None \<or>
       e = SelfHealingLocatorError (''Smart locator generation failed for: '' @ original) original None \<or>
       (\<exists>l. e = SelfHealingLocatorError (''Smart locator validation failed for: '' @ original) original (Some l)) \<or>
       (\<exists>l. e = Error (suggestionMessage original l))"
    if g: "fst ?g = Inl e" for e
  proof (cases "fst ?r")
    case (Inl e')
    with g have "e = e'"
      by (cases ?r) (simp add: getLocatorWithWait_def split: if_splits)
    with Inl resolve_errors [of D now reply pg original options s e]
    have "e = SelfHealingLocatorError (''Locator failed and smart locator is disabled: '' @ original) original None \<or>
         e = SelfHealingLocatorError (''Smart locator generation failed for: '' @ original) original None \<or>
         (\<exists>l. e = SelfHealingLocatorError (''Smart locator validation failed for: '' @ original) original (Some l))"
      by simp
    then show ?thesis by (elim disjE) (simp_all only: simp_thms)
  next
    case (Inr l)
    with g have "e = Error (suggestionMessage original l)"
      by (cases ?r) (simp add: getLocatorWithWait_def split: if_splits)
    then have "\<exists>l. e = Error (suggestionMessage original l)" by (rule exI)
    then show ?thesis by (intro disjI2)
  qed
  have three: "\<forall>e. fst ?g = Inl e \<longrightarrow>
      \<not> fst (exists D now reply pg original options s) \<and>
      (e = SelfHealingLocatorError (''Locator failed and smart locator is disabled: '' @ original) original None \<or>
       e = SelfHealingLocatorError (''Smart locator generation failed for: '' @ original) original None \<or>
       (\<exists>l. e = SelfHealingLocatorError (''Smart locator validation failed for: '' @ original) original (Some l)) \<or>
       (\<exists>l. e = Error (suggestionMessage original l)))"
  proof (intro allI impI conjI)
    fix e assume g: "fst ?g = Inl e"
    show "\<not> fst (exists D now reply pg original options s)"
      unfolding one g by simp
    show "e = SelfHealingLocatorError (''Locator failed and smart locator is disabled: '' @ original) original None \<or>
       e = SelfHealingLocatorError (''Smart locator generation failed for: '' @ original) original None \<or>
       (\<exists>l. e = SelfHealingLocatorError (''Smart locator validation failed for: '' @ original) original (Some l)) \<or>
       (\<exists>l. e = Error (suggestionMessage original l))"
      using g by (rule kinds)
  qed
  have four: "fst (exists D now reply pg original options s) \<longleftrightarrow>
      first_attached pg original (optionsTimeout options) \<or>
      shouldRunWithSmartLocator (configManager s) \<and> (\<exists>l. fst ?r = Inr l)"
  proof (cases "first_attached pg original (optionsTimeout options)")
    case True
    then show ?thesis unfolding one by (simp add: getLocatorWithWait_def)
  next
    case False
    show ?thesis
    proof (cases ?r)
      case (Pair res s1)
      then have cfg: "configManager s1 = configManager s"
        using resolve_config [of D now reply pg original options s] by simp
      from Pair False cfg show ?thesis
        unfolding one by (cases res) (simp_all add: getLocatorWithWait_def)
    qed
  qed
  show ?thesis
    by (rule conjI [OF one conjI [OF two conjI [OF three four]]])
qed

theorem exists_turns_errors_into_false_witness:
  "fst (getLocatorWithWait example_date 1767355200000 example_reply (page_with [''[data-testid=submit]''])
       ''#old-id'' example_options disabled_state) =
     Inl (SelfHealingLocatorError ''Locator failed and smart locator is disabled: #old-id'' ''#old-id'' None) \<and>
   \<not> fst (exists example_date 1767355200000 example_reply (page_with [''[data-testid=submit]''])
       ''#old-id'' example_options disabled_state) \<and>
   fst (getLocatorWithWait example_date 1767355200000 example_reply (page_with [''button.submit''])
       ''#missing'' example_options example_state) =
     Inl (Error (suggestionMessage ''#missing'' ''button.submit'')) \<and>
   \<not> fst (exists example_date 1767355200000 example_reply (page_with [''button.submit''])
       ''#missing'' example_options example_state) \<and>
   first_attached (page_with [''#login-button'']) ''#login-button'' (optionsTimeout example_options) \<and>
   fst (exists example_date 1767355200000 example_reply (page_with [''#login-button''])
       ''#login-button'' example_options example_state) \<and>
   shouldRunWithSmartLocator (configManager healing_state) \<and>
   fst (resolveSmartLocator example_date 1767355200000 example_reply (page_with [''button.submit''])
       ''#missing'' example_options healing_state) = Inr ''button.submit'' \<and>
   fst (exists example_date 1767355200000 example_reply (page_with [''button.submit''])
       ''#missing'' example_options healing_state)"
proof -
  note defs = getLocatorWithWait_def resolveSmartLocator_def generateSmartLocator_def callOpenAI_def
      LocalCache_get_def LocalCache_set_def cacheEntry_def validateLocator_def updateCacheFailure_def
      updateCacheSuccess_def updateFailure_def updateSuccess_def saveCache_def logCall_def Let_def
      optionsTimeout_def isSmartLocatorEnabled_def shouldRunWithSmartLocator_def page_with_def
      disabled_state_def healing_state_def example_state_def example_store_def example_entry_def
      example_config_def example_options_def example_disk_def example_reply_def example_date_def
  have g1: "fst (getLocatorWithWait example_date 1767355200000 example_reply (page_with [''[data-testid=submit]''])
       ''#old-id'' example_options disabled_state) =
     Inl (SelfHealingLocatorError ''Locator failed and smart locator is disabled: #old-id'' ''#old-id'' None)"
    by (simp add: defs)
  have g2: "fst (getLocatorWithWait example_date 1767355200000 example_reply (page_with [''button.submit''])
       ''#missing'' example_options example_state) =
     Inl (Error (suggestionMessage ''#missing'' ''button.submit''))"
    by (simp add: defs)
  have f: "first_attached (page_with [''#login-button'']) ''#login-button'' (optionsTimeout example_options)"
    by (simp add: page_with_def)
  have hd: "shouldRunWithSmartLocator (configManager healing_state)"
    by (simp add: shouldRunWithSmartLocator_def isSmartLocatorEnabled_def healing_state_def example_config_def)
  have r: "fst (resolveSmartLocator example_date 1767355200000 example_reply (page_with [''button.submit''])
       ''#missing'' example_options healing_state) = Inr ''button.submit''"
    by (simp add: defs)
  note A = exists_turns_errors_into_false [of example_date 1767355200000 example_reply
      "page_with [''[data-testid=submit]'']" "''#old-id''" example_options disabled_state]
  note B = exists_turns_errors_into_false [of example_date 1767355200000 example_reply
      "page_with [''button.submit'']" "''#missing''" example_options example_state]
  note C = exists_turns_errors_into_false [of example_date 1767355200000 example_reply
      "page_with [''#login-button'']" "''#login-button''" example_options example_state]
  note E = exists_turns_errors_into_false [of example_date 1767355200000 example_reply
      "page_with [''button.submit'']" "''#missing''" example_options healing_state]
  have a: "\<not> fst (exists example_date 1767355200000 example_reply (page_with [''[data-testid=submit]''])
       ''#old-id'' example_options disabled_state)"
    by (rule A [THEN conjunct2, THEN conjunct2, THEN conjunct1, THEN spec, THEN mp, OF g1, THEN conjunct1])
  have b: "\<not> fst (exists example_date 1767355200000 example_reply (page_with [''button.submit''])
       ''#missing'' example_options example_state)"
    by (rule B [THEN conjunct2, THEN conjunct2, THEN conjunct1, THEN spec, THEN mp, OF g2, THEN conjunct1])
  have c: "fst (exists example_date 1767355200000 example_reply (page_with [''#login-button''])
       ''#login-button'' example_options example_state)"
    by (rule C [THEN conjunct2, THEN conjunct2, THEN conjunct2, THEN iffD2, OF disjI1 [OF f]])
  have "\<exists>l. fst (resolveSmartLocator example_date 1767355200000 example_reply (page_with [''button.submit''])
       ''#missing'' example_options healing_state) = Inr l"
    using r by (rule exI)
  then have e: "fst (exists example_date 1767355200000 example_reply (page_with [''button.submit''])
       ''#missing'' example_options healing_state)"
    by (rule E [THEN conjunct2, THEN conjunct2, THEN conjunct2, THEN iffD2, OF disjI2 [OF conjI [OF hd]]])
  show ?thesis
    by (rule conjI [OF g1 conjI [OF a conjI [OF g2 conjI [OF b conjI [OF f conjI [OF c conjI [OF hd conjI [OF r e]]]]]]]])
qed

end
